theory Spec2Isabelle
  imports Complex_Main "HOL-Library.AList"
begin

section \<open>Common modelling conventions\<close>

text \<open>
  The development embeds the base router (\<^verbatim>\<open>llm/router/router.go\<close>), the smart router
  and the memory tiers (buffer, summary, vector, multi-layer) of the library.

  \<^item> Go's \<^verbatim>\<open>int\<close> is modelled by \<open>int\<close>; where a result can leave the range of 64 bits
    (the round-robin cursor, the sum of offset and limit, a latency in nanoseconds) the
    wrap-around is written out.
  \<^item> Go's \<^verbatim>\<open>float64\<close> is modelled by \<open>real\<close>: comparisons and the arithmetic of the
    scoring formulas are those of the reals, rounding is not modelled.
  \<^item> \<^verbatim>\<open>time.Time\<close> is an integer instant; \<open>0\<close> stands for the zero value that
    \<^verbatim>\<open>IsZero\<close> recognises. Readings of the clock and generated identifiers are inputs
    of the operation that asks for them.
  \<^item> A \<^verbatim>\<open>map[string]any\<close> of metadata is a reference: nil, or the address of a cell in
    a store of maps. Copying an entry copies the reference, so the copy and the original
    share the map. The store is an argument of every operation that reads a map and a
    result of every operation that writes one. The contents of a cell are an association
    list. The metadata filter of a query is only ever read and is kept as a value.
  \<^item> A run-time panic is a value of the error type.
\<close>

datatype err =
    Err string
  | Wrap string err
  | Panic string

type_synonym time = int

datatype any = AStr string | AInt int | ABool bool | AFloat real

type_synonym meta = "(string \<times> any) list"

type_synonym addr = nat

record heap =
  cells :: "addr \<Rightarrow> meta"
  next_free :: addr

text \<open>
  The three primitives on maps: \<^verbatim>\<open>make(map[string]any)\<close> takes the next free cell,
  \<^verbatim>\<open>m[k] = v\<close> updates the cell in place, and a read goes through the reference (a nil map
  reads as empty).
\<close>

definition make_map :: "heap \<Rightarrow> addr \<times> heap" where
  "make_map h =
     (next_free h,
      h\<lparr>cells := (cells h)(next_free h := []), next_free := Suc (next_free h)\<rparr>)"

definition put :: "addr \<Rightarrow> string \<Rightarrow> any \<Rightarrow> heap \<Rightarrow> heap" where
  "put a k v h = h\<lparr>cells := (cells h)(a := AList.update k v (cells h a))\<rparr>"

definition meta_of :: "addr option \<Rightarrow> heap \<Rightarrow> meta" where
  "meta_of r h = (case r of None \<Rightarrow> [] | Some a \<Rightarrow> cells h a)"

section \<open>Buffer memory\<close>

record Entry =
  ID :: string
  Role :: string
  Content :: string
  Metadata :: "addr option"
  Embedding :: "real list"
  CreatedAt :: time
  UpdatedAt :: time

record SearchQuery =
  Query :: string
  q_Embedding :: "real list"
  Limit :: int
  Offset :: int
  Roles :: "string list"
  Since :: "time option"
  Until :: "time option"
  q_Metadata :: meta
  OrderBy :: string
  OrderDesc :: bool

record MemoryStats =
  EntryCount :: int
  TokenCount :: int
  OldestEntry :: "time option"
  NewestEntry :: "time option"

record BufferMemory =
  entries :: "Entry list"
  capacity :: int

definition NewBuffer :: "int \<Rightarrow> BufferMemory" where
  "NewBuffer c =
     (let c = (if c \<le> 0 then 100 else c)
      in \<lparr> entries = [], capacity = c \<rparr>)"

text \<open>
  The entry as \<^verbatim>\<open>Save\<close> stores it: a missing id is replaced by the generated one, a
  zero creation time by the clock reading.
\<close>

definition stamp :: "string \<Rightarrow> time \<Rightarrow> Entry \<Rightarrow> Entry" where
  "stamp gid now entry =
     (let entry = (if ID entry = [] then entry\<lparr>ID := gid\<rparr> else entry);
          entry = (if CreatedAt entry = 0 then entry\<lparr>CreatedAt := now\<rparr> else entry)
      in entry)"

text \<open>
  \<^verbatim>\<open>BufferMemory.Save\<close>. The slice expression \<^verbatim>\<open>m.entries[1:]\<close> panics on an empty
  slice, which the model reports.
\<close>

definition Save :: "BufferMemory \<Rightarrow> string \<Rightarrow> time \<Rightarrow> Entry \<Rightarrow> err + BufferMemory" where
  "Save m gid now entry =
     (let entry = stamp gid now entry
      in if int (length (entries m)) \<ge> capacity m then
           (case entries m of
              [] \<Rightarrow> Inl (Panic ''slice bounds out of range'')
            | _ # rest \<Rightarrow> Inr (m\<lparr>entries := rest @ [entry]\<rparr>))
         else Inr (m\<lparr>entries := entries m @ [entry]\<rparr>))"

text \<open>A sequence of \<^verbatim>\<open>Save\<close> calls, each with its generated id and clock reading.\<close>

fun saves :: "BufferMemory \<Rightarrow> (string \<times> time \<times> Entry) list \<Rightarrow> err + BufferMemory" where
  "saves m [] = Inr m"
| "saves m ((gid, now, e) # xs) =
     (case Save m gid now e of
        Inl x \<Rightarrow> Inl x
      | Inr m' \<Rightarrow> saves m' xs)"

fun stamped :: "(string \<times> time \<times> Entry) \<Rightarrow> Entry" where
  "stamped (gid, now, e) = stamp gid now e"

text \<open>
  \<^verbatim>\<open>BufferMemory.Get\<close>: the pair (entry, error) of the source is a sum whose right side is
  the optional entry; \<open>Inr None\<close> is the return \<^verbatim>\<open>nil, nil\<close>.
\<close>

fun find_entry :: "Entry list \<Rightarrow> string \<Rightarrow> Entry option" where
  "find_entry [] i = None"
| "find_entry (e # es) i = (if ID e = i then Some e else find_entry es i)"

definition Get :: "BufferMemory \<Rightarrow> string \<Rightarrow> err + Entry option" where
  "Get m i = Inr (find_entry (entries m) i)"

text \<open>
  A slice expression \<^verbatim>\<open>xs[lo:hi]\<close> on a slice whose capacity is its length; out of
  range bounds panic.
\<close>

definition slice :: "'a list \<Rightarrow> int \<Rightarrow> int \<Rightarrow> err + 'a list" where
  "slice xs lo hi =
     (if 0 \<le> lo \<and> lo \<le> hi \<and> hi \<le> int (length xs)
      then Inr (take (nat (hi - lo)) (drop (nat lo) xs))
      else Inl (Panic ''slice bounds out of range''))"

text \<open>Addition and multiplication of two 64-bit signed integers, with the wrap-around of
  the machine.\<close>

definition add64 :: "int \<Rightarrow> int \<Rightarrow> int" where
  "add64 a b = ((a + b + 2 ^ 63) mod 2 ^ 64) - 2 ^ 63"

definition mul64 :: "int \<Rightarrow> int \<Rightarrow> int" where
  "mul64 a b = ((a * b + 2 ^ 63) mod 2 ^ 64) - 2 ^ 63"

text \<open>
  \<^verbatim>\<open>matchQuery\<close>: role filter, time range, exact match on every key of the query's
  metadata, read from the entry's map as the store has it. The values compared are of
  comparable dynamic types.
\<close>

definition matchQuery :: "Entry \<Rightarrow> SearchQuery \<Rightarrow> heap \<Rightarrow> bool" where
  "matchQuery entry query h =
     (if Roles query \<noteq> [] \<and> Role entry \<notin> set (Roles query) then False
      else if (case Since query of None \<Rightarrow> False | Some s \<Rightarrow> CreatedAt entry < s) then False
      else if (case Until query of None \<Rightarrow> False | Some u \<Rightarrow> CreatedAt entry > u) then False
      else if q_Metadata query \<noteq> [] then
        (case Metadata entry of
           None \<Rightarrow> False
         | Some a \<Rightarrow>
            list_all (\<lambda>k. map_of (cells h a) k = map_of (q_Metadata query) k)
              (map fst (q_Metadata query)))
      else True)"

text \<open>The pagination at the end of \<^verbatim>\<open>BufferMemory.Search\<close>.\<close>

definition paginate :: "Entry list \<Rightarrow> SearchQuery \<Rightarrow> err + Entry list" where
  "paginate results query =
     (let start = (if Offset query < 0 then 0 else Offset query)
      in if start \<ge> int (length results) then Inr []
         else
           (let end = int (length results);
                end = (if Limit query > 0 \<and> add64 start (Limit query) < end
                       then add64 start (Limit query) else end)
            in slice results start end))"

text \<open>
  \<^verbatim>\<open>BufferMemory.Search\<close> builds a new slice of copies of the matching entries; it reads
  the store and leaves it as it is.
\<close>

definition Search :: "BufferMemory \<Rightarrow> SearchQuery \<Rightarrow> heap \<Rightarrow> err + Entry list" where
  "Search m query h =
     (let results = filter (\<lambda>entry. matchQuery entry query h) (entries m);
          results = (if OrderDesc query then rev results else results)
      in paginate results query)"

definition Clear :: "BufferMemory \<Rightarrow> BufferMemory" where
  "Clear m = m\<lparr>entries := []\<rparr>"

text \<open>\<^verbatim>\<open>BufferMemory.Stats\<close> fills the count and the two time stamps; the token count keeps
  the zero value of the struct.\<close>

definition Stats :: "BufferMemory \<Rightarrow> MemoryStats" where
  "Stats m =
     (let stats = \<lparr> EntryCount = int (length (entries m)), TokenCount = 0,
                    OldestEntry = None, NewestEntry = None \<rparr>
      in if length (entries m) > 0
         then stats\<lparr> OldestEntry := Some (CreatedAt (hd (entries m))),
                     NewestEntry := Some (CreatedAt (last (entries m))) \<rparr>
         else stats)"

definition Entries :: "BufferMemory \<Rightarrow> Entry list" where
  "Entries m = entries m"

section \<open>Summary memory\<close>

record SummaryConfig =
  MaxEntries :: int
  MaxTokens :: int
  KeepRecent :: int
  SummaryPrompt :: string
  ProgressiveSummary :: bool
  BufferCapacity :: int

text \<open>The summarizer collaborator is a field of the memory, as in the source.\<close>

record SummaryMemory =
  buffer :: BufferMemory
  summarizer :: "string \<Rightarrow> err + string"
  config :: SummaryConfig
  summary :: string
  summaryTime :: time

text \<open>
  What an operation of the summary memory takes from its surroundings: the formatting
  function \<^verbatim>\<open>fmt.Sprintf\<close> of the standard library, the text of the constant
  \<^verbatim>\<open>progressiveSummaryPrompt\<close> (not ASCII; no property depends on its wording), and the
  values that the id generator and the clock return at the \<open>i\<close>-th place where the
  operation may ask for them.
\<close>

record world =
  Sprintf :: "string \<Rightarrow> string list \<Rightarrow> string"
  progressiveSummaryPrompt :: string
  idGen :: "nat \<Rightarrow> string"
  Now :: "nat \<Rightarrow> time"

definition shouldSummarize :: "SummaryMemory \<Rightarrow> bool" where
  "shouldSummarize m =
     (let stats = Stats (buffer m)
      in if MaxEntries (config m) > 0 \<and> EntryCount stats > MaxEntries (config m) then True
         else if MaxTokens (config m) > 0 \<and> TokenCount stats > MaxTokens (config m) then True
         else False)"

text \<open>The transcript and the prompt that \<^verbatim>\<open>doSummarize\<close> sends to the summarizer.\<close>

definition transcript :: "world \<Rightarrow> Entry list \<Rightarrow> string" where
  "transcript w toSummarize =
     concat (map (\<lambda>entry. Sprintf w (''%s: %s'' @ [CHR 0x0A]) [Role entry, Content entry])
               toSummarize)"

definition summary_prompt :: "world \<Rightarrow> SummaryMemory \<Rightarrow> Entry list \<Rightarrow> string" where
  "summary_prompt w m toSummarize =
     (if ProgressiveSummary (config m) \<and> summary m \<noteq> []
      then Sprintf w (progressiveSummaryPrompt w) [summary m, transcript w toSummarize]
      else Sprintf w (SummaryPrompt (config m)) [transcript w toSummarize])"

text \<open>
  The loop that puts the recent entries back after the buffer was cleared; the result of
  each \<^verbatim>\<open>Save\<close> is ignored there, a panic is not.
\<close>

fun reinsert :: "world \<Rightarrow> nat \<Rightarrow> BufferMemory \<Rightarrow> Entry list \<Rightarrow> err + BufferMemory" where
  "reinsert w i b [] = Inr b"
| "reinsert w i b (entry # rest) =
     (case Save b (idGen w i) (Now w i) entry of
        Inl x \<Rightarrow> Inl x
      | Inr b' \<Rightarrow> reinsert w (Suc i) b' rest)"

text \<open>
  \<^verbatim>\<open>doSummarize\<close>. \<open>Inl\<close> is the returned error (the memory is then as before) or a panic
  of one of the two slice expressions.
\<close>

definition doSummarize :: "world \<Rightarrow> SummaryMemory \<Rightarrow> err + SummaryMemory" where
  "doSummarize w m =
     (let es = Entries (buffer m)
      in if int (length es) \<le> KeepRecent (config m) then Inr m
         else
           (case slice es 0 (int (length es) - KeepRecent (config m)) of
              Inl x \<Rightarrow> Inl x
            | Inr toSummarize \<Rightarrow>
               (case slice es (int (length es) - KeepRecent (config m)) (int (length es)) of
                  Inl x \<Rightarrow> Inl x
                | Inr recentEntries \<Rightarrow>
                   (case summarizer m (summary_prompt w m toSummarize) of
                      Inl e \<Rightarrow> Inl (Wrap ''summarize failed'' e)
                    | Inr newSummary \<Rightarrow>
                       (case reinsert w 2 (Clear (buffer m)) recentEntries of
                          Inl x \<Rightarrow> Inl x
                        | Inr b \<Rightarrow>
                           Inr (m\<lparr> summary := newSummary, summaryTime := Now w 1,
                                   buffer := b \<rparr>))))))"

fun is_panic :: "err \<Rightarrow> bool" where
  "is_panic (Panic _) = True"
| "is_panic _ = False"

text \<open>
  \<^verbatim>\<open>SummaryMemory.Save\<close>: \<open>Inr\<close> is the return of a nil error with the memory after the
  call. An error of \<^verbatim>\<open>doSummarize\<close> is dropped; a panic is not an error value and unwinds.
\<close>

definition Summary_Save :: "world \<Rightarrow> SummaryMemory \<Rightarrow> Entry \<Rightarrow> err + SummaryMemory" where
  "Summary_Save w m entry =
     (case Save (buffer m) (idGen w 0) (Now w 0) entry of
        Inl x \<Rightarrow> Inl x
      | Inr b \<Rightarrow>
         (let m = m\<lparr>buffer := b\<rparr>
          in if shouldSummarize m then
               (case doSummarize w m of
                  Inl x \<Rightarrow> (if is_panic x then Inl x else Inr m)
                | Inr m' \<Rightarrow> Inr m')
             else Inr m))"

definition Summary_Get :: "SummaryMemory \<Rightarrow> string \<Rightarrow> err + Entry option" where
  "Summary_Get m i = Get (buffer m) i"

definition Summary_Search :: "SummaryMemory \<Rightarrow> SearchQuery \<Rightarrow> heap \<Rightarrow> err + Entry list" where
  "Summary_Search m query h = Search (buffer m) query h"

section \<open>Vector memory\<close>

record VectorConfig =
  Dimension :: int
  v_Capacity :: int
  MinScore :: real
  DefaultTopK :: int

record VectorResult =
  vr_ID :: string
  Score :: real
  vr_Metadata :: meta

text \<open>
  The embedder and the vector store are collaborators behind interfaces; the memory holds
  them as fields. Of the store only the \<^verbatim>\<open>Search\<close> method is read by the operations
  modelled here. The map from ids to entries is an association list looked up with
  \<open>map_of\<close>.
\<close>

record VectorMemory =
  v_entries :: "(string \<times> Entry) list"
  embedder :: "string list \<Rightarrow> err + real list list"
  store_Search :: "real list \<Rightarrow> int \<Rightarrow> err + VectorResult list"
  v_config :: VectorConfig

text \<open>
  What the Go runtime and standard library decide for a search: the order in which
  \<^verbatim>\<open>range\<close> visits the entries of a map, and \<^verbatim>\<open>sort.Slice\<close>.
\<close>

record runtime =
  range_entries :: "(string \<times> Entry) list \<Rightarrow> (string \<times> Entry) list"
  sort_Slice :: "(Entry \<Rightarrow> Entry \<Rightarrow> bool) \<Rightarrow> Entry list \<Rightarrow> Entry list"

definition Vector_Get :: "VectorMemory \<Rightarrow> string \<Rightarrow> err + Entry option" where
  "Vector_Get m i = (case map_of (v_entries m) i of None \<Rightarrow> Inr None | Some entry \<Rightarrow> Inr (Some entry))"

text \<open>
  The loop over the results of the vector store in \<^verbatim>\<open>VectorMemory.Search\<close>. The copy of a
  stored entry keeps the entry's map; only for a nil map a new one is made. The score is
  then written into that map, so a stored entry with a map carries the score afterwards,
  and so does every other entry that shares the map.
\<close>

fun vector_hits ::
  "VectorMemory \<Rightarrow> SearchQuery \<Rightarrow> VectorResult list \<Rightarrow> heap \<Rightarrow> Entry list \<times> heap" where
  "vector_hits m query [] h = ([], h)"
| "vector_hits m query (result # results) h =
     (if Score result < MinScore (v_config m) then vector_hits m query results h
      else
        (case map_of (v_entries m) (vr_ID result) of
           None \<Rightarrow> vector_hits m query results h
         | Some entry \<Rightarrow>
            (if \<not> matchQuery entry query h then vector_hits m query results h
             else
               (case (case Metadata entry of None \<Rightarrow> make_map h | Some a \<Rightarrow> (a, h)) of
                  (a, h1) \<Rightarrow>
                    (case vector_hits m query results
                            (put a ''_score'' (AFloat (Score result)) h1) of
                       (rest, h2) \<Rightarrow> (entry\<lparr>Metadata := Some a\<rparr> # rest, h2))))))"

definition query_embedding :: "VectorMemory \<Rightarrow> SearchQuery \<Rightarrow> err + real list" where
  "query_embedding m query =
     (if q_Embedding query \<noteq> [] then Inr (q_Embedding query)
      else if Query query \<noteq> [] then
        (case embedder m [Query query] of
           Inl e \<Rightarrow> Inl (Wrap ''generate query embedding'' e)
         | Inr embeddings \<Rightarrow> (case embeddings of [] \<Rightarrow> Inr [] | v # _ \<Rightarrow> Inr v))
      else Inr [])"

definition plain_search ::
  "runtime \<Rightarrow> VectorMemory \<Rightarrow> SearchQuery \<Rightarrow> heap \<Rightarrow> err + Entry list" where
  "plain_search rt m query h =
     (let es = filter (\<lambda>entry. matchQuery entry query h)
                 (map snd (range_entries rt (v_entries m)));
          es = sort_Slice rt
                 (\<lambda>a b. if OrderDesc query then CreatedAt a > CreatedAt b
                         else CreatedAt a < CreatedAt b) es;
          start = Offset query
      in if start > int (length es) then Inr []
         else
           (let end = int (length es);
                end = (if Limit query > 0 \<and> add64 start (Limit query) < end
                       then add64 start (Limit query) else end)
            in slice es start end))"

definition Vector_Search ::
  "runtime \<Rightarrow> VectorMemory \<Rightarrow> SearchQuery \<Rightarrow> heap \<Rightarrow> (err + Entry list) \<times> heap" where
  "Vector_Search rt m query h =
     (let topK = (if Limit query \<le> 0 then DefaultTopK (v_config m) else Limit query)
      in case query_embedding m query of
           Inl e \<Rightarrow> (Inl e, h)
         | Inr embedding \<Rightarrow>
            (if embedding \<noteq> [] then
               (case store_Search m embedding topK of
                  Inl e \<Rightarrow> (Inl (Wrap ''vector search'' e), h)
                | Inr results \<Rightarrow>
                   (case vector_hits m query results h of (es, h') \<Rightarrow> (Inr es, h')))
             else (plain_search rt m query h, h)))"

section \<open>Multi-layer memory\<close>

type_synonym MemoryLayer = string

definition LayerWorking :: MemoryLayer where "LayerWorking = ''working''"
definition LayerShortTerm :: MemoryLayer where "LayerShortTerm = ''short_term''"
definition LayerLongTerm :: MemoryLayer where "LayerLongTerm = ''long_term''"

text \<open>The three tiers; a tier that was not configured is \<open>None\<close> (a nil pointer).\<close>

record MultiLayerMemory =
  working :: BufferMemory
  shortTerm :: "SummaryMemory option"
  longTerm :: "VectorMemory option"

text \<open>
  \<^verbatim>\<open>addLayerMeta\<close> makes a map only for a nil argument and writes the tag into the map
  that it was given otherwise.
\<close>

definition addLayerMeta ::
  "addr option \<Rightarrow> MemoryLayer \<Rightarrow> heap \<Rightarrow> addr option \<times> heap" where
  "addLayerMeta metadata layer h =
     (case (case metadata of None \<Rightarrow> make_map h | Some a \<Rightarrow> (a, h)) of
        (a, h1) \<Rightarrow> (Some a, put a ''_layer'' (AStr layer) h1))"

text \<open>The loop \<^verbatim>\<open>for i := range entries\<close> that tags the entries a tier returned.\<close>

fun tag_entries :: "MemoryLayer \<Rightarrow> Entry list \<Rightarrow> heap \<Rightarrow> Entry list \<times> heap" where
  "tag_entries layer [] h = ([], h)"
| "tag_entries layer (e # es) h =
     (case addLayerMeta (Metadata e) layer h of
        (r, h1) \<Rightarrow>
          (case tag_entries layer es h1 of
             (es', h2) \<Rightarrow> (e\<lparr>Metadata := r\<rparr> # es', h2)))"

text \<open>
  One tier's contribution to \<^verbatim>\<open>MultiLayerMemory.Search\<close>: the tagged entries of a search
  that returned no error, nothing for one that returned an error.
\<close>

definition layer_hits ::
  "MemoryLayer \<Rightarrow> err + Entry list \<Rightarrow> heap \<Rightarrow> (err + Entry list) \<times> heap" where
  "layer_hits layer r h =
     (case r of
        Inl x \<Rightarrow> ((if is_panic x then Inl x else Inr []), h)
      | Inr es \<Rightarrow> (case tag_entries layer es h of (es', h') \<Rightarrow> (Inr es', h')))"

definition apply_limit :: "SearchQuery \<Rightarrow> 'a list \<Rightarrow> 'a list" where
  "apply_limit query allEntries =
     (if Limit query > 0 \<and> int (length allEntries) > Limit query
      then take (nat (Limit query)) allEntries else allEntries)"

definition ML_Search ::
  "runtime \<Rightarrow> MultiLayerMemory \<Rightarrow> SearchQuery \<Rightarrow> heap \<Rightarrow> (err + Entry list) \<times> heap" where
  "ML_Search rt m query h =
     (case layer_hits LayerWorking (Search (working m) query h) h of
        (Inl x, h1) \<Rightarrow> (Inl x, h1)
      | (Inr ws, h1) \<Rightarrow>
         (case (case shortTerm m of
                  None \<Rightarrow> (Inr [], h1)
                | Some st \<Rightarrow> layer_hits LayerShortTerm (Summary_Search st query h1) h1) of
            (Inl x, h2) \<Rightarrow> (Inl x, h2)
          | (Inr ss, h2) \<Rightarrow>
             (case (case longTerm m of
                      None \<Rightarrow> (Inr [], h2)
                    | Some lt \<Rightarrow>
                       (if Query query \<noteq> [] \<or> q_Embedding query \<noteq> []
                        then (case Vector_Search rt lt query h2 of
                                (r, h3) \<Rightarrow> layer_hits LayerLongTerm r h3)
                        else (Inr [], h2))) of
                (Inl x, h3) \<Rightarrow> (Inl x, h3)
              | (Inr ls, h3) \<Rightarrow> (Inr (apply_limit query (ws @ ss @ ls)), h3))))"

definition ML_SearchLayer ::
  "runtime \<Rightarrow> MultiLayerMemory \<Rightarrow> MemoryLayer \<Rightarrow> SearchQuery \<Rightarrow> heap
     \<Rightarrow> (err + Entry list) \<times> heap" where
  "ML_SearchLayer rt m layer query h =
     (let unavailable = (Inl (Err (''layer '' @ layer @ '' not available'')), h)
      in if layer = LayerWorking then (Search (working m) query h, h)
         else if layer = LayerShortTerm then
           (case shortTerm m of
              None \<Rightarrow> unavailable
            | Some st \<Rightarrow> (Summary_Search st query h, h))
         else if layer = LayerLongTerm then
           (case longTerm m of None \<Rightarrow> unavailable | Some lt \<Rightarrow> Vector_Search rt lt query h)
         else unavailable)"

text \<open>The entry that a tier's \<^verbatim>\<open>Get\<close> yields, its error being ignored by the caller.\<close>

definition found :: "err + Entry option \<Rightarrow> Entry option" where
  "found r = (case r of Inl _ \<Rightarrow> None | Inr x \<Rightarrow> x)"

definition ML_Get :: "MultiLayerMemory \<Rightarrow> string \<Rightarrow> err + Entry option" where
  "ML_Get m i =
     (case found (Get (working m) i) of
        Some entry \<Rightarrow> Inr (Some entry)
      | None \<Rightarrow>
         (case (case shortTerm m of None \<Rightarrow> None | Some st \<Rightarrow> found (Summary_Get st i)) of
            Some entry \<Rightarrow> Inr (Some entry)
          | None \<Rightarrow>
             (case (case longTerm m of None \<Rightarrow> None | Some lt \<Rightarrow> found (Vector_Get lt i)) of
                Some entry \<Rightarrow> Inr (Some entry)
              | None \<Rightarrow> Inr None)))"

section \<open>Concrete states\<close>

text \<open>Small states of the memory tiers on which the general theorems are instantiated.\<close>

definition ex_entry :: "string \<Rightarrow> time \<Rightarrow> Entry" where
  "ex_entry i t = \<lparr> ID = i, Role = ''user'', Content = ''hello'', Metadata = None,
                     Embedding = [], CreatedAt = t, UpdatedAt = 0 \<rparr>"

definition ex_buffer :: BufferMemory where
  "ex_buffer = \<lparr> entries = [ex_entry ''a'' 1, ex_entry ''b'' 2], capacity = 3 \<rparr>"

definition ex_config :: SummaryConfig where
  "ex_config = \<lparr> MaxEntries = 2, MaxTokens = 4000, KeepRecent = 1, SummaryPrompt = ''%s'',
                  ProgressiveSummary = True, BufferCapacity = 3 \<rparr>"

definition ex_summary :: SummaryMemory where
  "ex_summary = \<lparr> buffer = \<lparr> entries = [ex_entry ''c'' 3, ex_entry ''d'' 4], capacity = 3 \<rparr>,
                   summarizer = (\<lambda>p. Inr ''digest''), config = ex_config,
                   summary = [], summaryTime = 0 \<rparr>"

definition ex_vector :: VectorMemory where
  "ex_vector = \<lparr> v_entries = [(''e'', ex_entry ''e'' 5)],
                  embedder = (\<lambda>texts. Inr (map (\<lambda>t. [1]) texts)),
                  store_Search = (\<lambda>v k. Inr [\<lparr> vr_ID = ''e'', Score = 1, vr_Metadata = [] \<rparr>]),
                  v_config = \<lparr> Dimension = 1, v_Capacity = 10, MinScore = 7 / 10,
                               DefaultTopK = 10 \<rparr> \<rparr>"

definition ex_multi :: MultiLayerMemory where
  "ex_multi = \<lparr> working = ex_buffer, shortTerm = Some ex_summary, longTerm = Some ex_vector \<rparr>"

text \<open>
  Five saves into a buffer: of entries that carry an id and a creation time, and of the
  entries of the test \<^verbatim>\<open>TestBufferMemory_Save_Capacity\<close>, which carry an id only and are
  saved at the clock readings 11 to 15.
\<close>

definition five_saves :: "(string \<times> time \<times> Entry) list" where
  "five_saves = [(''mem-1'', 11, ex_entry ''A'' 1), (''mem-2'', 12, ex_entry ''B'' 2),
                 (''mem-3'', 13, ex_entry ''C'' 3), (''mem-4'', 14, ex_entry ''D'' 4),
                 (''mem-5'', 15, ex_entry ''E'' 5)]"

definition test_entry :: "string \<Rightarrow> Entry" where
  "test_entry i = \<lparr> ID = i, Role = ''user'', Content = i, Metadata = None,
                     Embedding = [], CreatedAt = 0, UpdatedAt = 0 \<rparr>"

definition test_saves :: "(string \<times> time \<times> Entry) list" where
  "test_saves = [(''mem-1'', 11, test_entry ''A''), (''mem-2'', 12, test_entry ''B''),
                 (''mem-3'', 13, test_entry ''C''), (''mem-4'', 14, test_entry ''D''),
                 (''mem-5'', 15, test_entry ''E'')]"

text \<open>
  The entries that the refill loop of \<^verbatim>\<open>doSummarize\<close> stores: entry number \<open>j\<close> of the
  list passes through \<^verbatim>\<open>Save\<close> with the id and clock values of place \<open>i + j\<close>. An entry
  that has an id and a creation time is stored unchanged.
\<close>

fun restamp :: "world \<Rightarrow> nat \<Rightarrow> Entry list \<Rightarrow> Entry list" where
  "restamp w i [] = []"
| "restamp w i (e # es) = stamp (idGen w i) (Now w i) e # restamp w (Suc i) es"

definition ex_world :: world where
  "ex_world = \<lparr> Sprintf = (\<lambda>f args. concat args), progressiveSummaryPrompt = ''%s %s'',
                 idGen = (\<lambda>i. ''mem-1''), Now = (\<lambda>i. 9) \<rparr>"

text \<open>The same summary memory with the entry threshold switched off, and with a
  summarizer that fails.\<close>

definition ex_summary_off :: SummaryMemory where
  "ex_summary_off = ex_summary\<lparr>config := ex_config\<lparr>MaxEntries := 0\<rparr>\<rparr>"

definition ex_summary_failing :: SummaryMemory where
  "ex_summary_failing = ex_summary\<lparr>summarizer := (\<lambda>p. Inl (Err ''unavailable''))\<rparr>"

text \<open>The summary memory with room below the entry threshold and the token threshold
  switched off; and one with a token threshold of ten, the entry threshold switched off and
  entries of forty characters.\<close>

definition ex_summary_roomy :: SummaryMemory where
  "ex_summary_roomy = ex_summary\<lparr>config := ex_config\<lparr>MaxEntries := 5, MaxTokens := 0\<rparr>\<rparr>"

definition long_entry :: "string \<Rightarrow> time \<Rightarrow> Entry" where
  "long_entry i t = \<lparr> ID = i, Role = ''user'', Content = replicate 40 CHR ''x'', Metadata = None,
                       Embedding = [], CreatedAt = t, UpdatedAt = 0 \<rparr>"

definition ex_summary_wordy :: SummaryMemory where
  "ex_summary_wordy =
     ex_summary\<lparr> buffer := \<lparr> entries = [long_entry ''c'' 3, long_entry ''d'' 4], capacity = 3 \<rparr>,
                  config := ex_config\<lparr>MaxEntries := 0, MaxTokens := 10\<rparr> \<rparr>"

section \<open>Comparing the aggregated search with the searches of the tiers\<close>

text \<open>The entries a search returned (none when it returned an error), and whether it
  ended in a panic.\<close>

definition hits_of :: "err + Entry list \<Rightarrow> Entry list" where
  "hits_of r = (case r of Inl _ \<Rightarrow> [] | Inr es \<Rightarrow> es)"

definition panicked :: "err + Entry list \<Rightarrow> bool" where
  "panicked r = (case r of Inl x \<Rightarrow> is_panic x | Inr _ \<Rightarrow> False)"

text \<open>
  What a caller sees of a returned entry: its fields, and the contents of its map in the
  store that the call left behind. \<open>strip_layer\<close> drops the \<^verbatim>\<open>_layer\<close> key, and
  \<open>result_view\<close> is the list of the entries of a result, seen in this way.
\<close>

definition seen :: "heap \<Rightarrow> Entry \<Rightarrow> Entry \<times> meta" where
  "seen h e = (e\<lparr>Metadata := None\<rparr>, meta_of (Metadata e) h)"

definition strip_layer :: "Entry \<times> meta \<Rightarrow> Entry \<times> meta" where
  "strip_layer v = (fst v, AList.delete ''_layer'' (snd v))"

definition result_view :: "(err + Entry list) \<times> heap \<Rightarrow> (Entry \<times> meta) list" where
  "result_view out = map (\<lambda>e. strip_layer (seen (snd out) e)) (hits_of (fst out))"

text \<open>
  The maps that the stored entries of each tier refer to, and the two conditions on a
  state under which the searches are compared: every such map is a cell of the store, and
  no entry of the long-term tier shares its map with an entry of another tier.
\<close>

definition refs :: "Entry list \<Rightarrow> addr list" where
  "refs es = concat (map (\<lambda>e. case Metadata e of None \<Rightarrow> [] | Some a \<Rightarrow> [a]) es)"

definition working_refs :: "MultiLayerMemory \<Rightarrow> addr list" where
  "working_refs m = refs (entries (working m))"

definition short_refs :: "MultiLayerMemory \<Rightarrow> addr list" where
  "short_refs m = (case shortTerm m of None \<Rightarrow> [] | Some st \<Rightarrow> refs (entries (buffer st)))"

definition long_refs :: "MultiLayerMemory \<Rightarrow> addr list" where
  "long_refs m = (case longTerm m of None \<Rightarrow> [] | Some lt \<Rightarrow> refs (map snd (v_entries lt)))"

definition allocated :: "MultiLayerMemory \<Rightarrow> heap \<Rightarrow> bool" where
  "allocated m h =
     list_all (\<lambda>a. a < next_free h) (working_refs m @ short_refs m @ long_refs m)"

definition long_term_apart :: "MultiLayerMemory \<Rightarrow> bool" where
  "long_term_apart m =
     list_all (\<lambda>a. a \<notin> set (working_refs m @ short_refs m)) (long_refs m)"

text \<open>
  The part of the contract of \<^verbatim>\<open>range\<close> and \<^verbatim>\<open>sort.Slice\<close> that the comparison relies
  on: they return elements of what they were given.
\<close>

definition returns_elements :: "runtime \<Rightarrow> bool" where
  "returns_elements rt \<longleftrightarrow>
     (\<forall>kvs. set (range_entries rt kvs) \<subseteq> set kvs) \<and>
     (\<forall>lt es. set (sort_Slice rt lt es) \<subseteq> set es)"

text \<open>
  Two stores agree up to the tag on the cells outside \<open>X\<close> that the first one has, and
  the second has at least the cells of the first.
\<close>

definition unchanged :: "addr set \<Rightarrow> heap \<Rightarrow> heap \<Rightarrow> bool" where
  "unchanged X h h' \<longleftrightarrow>
     next_free h \<le> next_free h' \<and>
     (\<forall>a. a < next_free h \<longrightarrow> a \<notin> X \<longrightarrow>
        AList.delete ''_layer'' (cells h' a) = AList.delete ''_layer'' (cells h a))"

text \<open>Two stores agree up to the tag on the first \<open>n\<close> cells, which both have.\<close>

definition related :: "nat \<Rightarrow> heap \<Rightarrow> heap \<Rightarrow> bool" where
  "related n h h' \<longleftrightarrow>
     n \<le> next_free h \<and> n \<le> next_free h' \<and>
     (\<forall>a. a < n \<longrightarrow>
        AList.delete ''_layer'' (cells h' a) = AList.delete ''_layer'' (cells h a))"

text \<open>An entry as a caller sees it, without the tag.\<close>

definition sv :: "heap \<Rightarrow> Entry \<Rightarrow> Entry \<times> meta" where
  "sv h e = strip_layer (seen h e)"

text \<open>
  The two halves of one round of the loop over the results of the vector store: the stored
  entry that a result selects, if any, and the copy that carries the score.
\<close>

definition selects :: "VectorMemory \<Rightarrow> SearchQuery \<Rightarrow> VectorResult \<Rightarrow> heap \<Rightarrow> Entry option" where
  "selects m q r h =
     (if Score r < MinScore (v_config m) then None
      else case map_of (v_entries m) (vr_ID r) of
             None \<Rightarrow> None
           | Some entry \<Rightarrow> if matchQuery entry q h then Some entry else None)"

definition with_score :: "Entry \<Rightarrow> real \<Rightarrow> heap \<Rightarrow> Entry \<times> heap" where
  "with_score entry s h =
     (case (case Metadata entry of None \<Rightarrow> make_map h | Some a \<Rightarrow> (a, h)) of
        (a, h1) \<Rightarrow> (entry\<lparr>Metadata := Some a\<rparr>, put a ''_score'' (AFloat s) h1))"

text \<open>
  The insertion sort that \<^verbatim>\<open>sort.Slice\<close> runs on slices of at most twelve elements:
  element after element moves towards the front while it is less than its left neighbour.
  \<open>insert_back\<close> works on the reversed prefix.
\<close>

fun insert_back :: "('a \<Rightarrow> 'a \<Rightarrow> bool) \<Rightarrow> 'a \<Rightarrow> 'a list \<Rightarrow> 'a list" where
  "insert_back lt x [] = [x]"
| "insert_back lt x (y # ys) =
     (if lt x y then y # insert_back lt x ys else x # y # ys)"

definition insertionSort :: "('a \<Rightarrow> 'a \<Rightarrow> bool) \<Rightarrow> 'a list \<Rightarrow> 'a list" where
  "insertionSort lt xs = rev (foldl (\<lambda>acc x. insert_back lt x acc) [] xs)"

definition ex_rt :: runtime where
  "ex_rt = \<lparr> range_entries = (\<lambda>kvs. kvs), sort_Slice = insertionSort \<rparr>"

definition ex_query :: SearchQuery where
  "ex_query = \<lparr> Query = ''hello'', q_Embedding = [], Limit = 2, Offset = 0, Roles = [],
                 Since = None, Until = None, q_Metadata = [], OrderBy = [],
                 OrderDesc = False \<rparr>"

text \<open>
  A long-term tier whose embedder yields no vector, so that a query with text is answered
  by the search that sorts by creation time, over two entries created at the same instant;
  and a runtime that visits a map in the opposite order.
\<close>

definition ex_multi_plain :: MultiLayerMemory where
  "ex_multi_plain =
     \<lparr> working = \<lparr> entries = [], capacity = 3 \<rparr>,
       shortTerm = None,
       longTerm = Some (ex_vector\<lparr> v_entries := [(''e'', ex_entry ''e'' 5), (''f'', ex_entry ''f'' 5)],
                                   embedder := (\<lambda>texts. Inr []) \<rparr>) \<rparr>"

definition ex_rt_rev :: runtime where
  "ex_rt_rev = \<lparr> range_entries = rev, sort_Slice = insertionSort \<rparr>"

text \<open>
  A store of three maps, each holding one key. In \<open>ex_multi_maps\<close> one entry of each tier
  refers to a map of its own and the other entry has none. In \<open>ex_multi_shared\<close> an entry
  of the working tier and an entry of the long-term tier refer to the same map, as after
  saving one entry into both tiers.
\<close>

definition ex_store :: heap where
  "ex_store = \<lparr> cells = (\<lambda>a. [(''topic'', AStr ''go'')]), next_free = 3 \<rparr>"

definition ex_multi_maps :: MultiLayerMemory where
  "ex_multi_maps =
     \<lparr> working = \<lparr> entries = [(ex_entry ''a'' 1)\<lparr>Metadata := Some 0\<rparr>, ex_entry ''b'' 2],
                    capacity = 3 \<rparr>,
       shortTerm = Some (ex_summary\<lparr> buffer :=
                     \<lparr> entries = [(ex_entry ''c'' 3)\<lparr>Metadata := Some 1\<rparr>, ex_entry ''d'' 4],
                       capacity = 3 \<rparr> \<rparr>),
       longTerm = Some (ex_vector\<lparr> v_entries :=
                     [(''e'', (ex_entry ''e'' 5)\<lparr>Metadata := Some 2\<rparr>),
                      (''f'', ex_entry ''f'' 6)],
                     store_Search := (\<lambda>v k. Inr [\<lparr> vr_ID = ''e'', Score = 1, vr_Metadata = [] \<rparr>,
                                                    \<lparr> vr_ID = ''f'', Score = 1, vr_Metadata = [] \<rparr>]) \<rparr>) \<rparr>"

definition ex_multi_shared :: MultiLayerMemory where
  "ex_multi_shared =
     \<lparr> working = \<lparr> entries = [(ex_entry ''a'' 1)\<lparr>Metadata := Some 0\<rparr>], capacity = 3 \<rparr>,
       shortTerm = None,
       longTerm = Some (ex_vector\<lparr> v_entries :=
                     [(''e'', (ex_entry ''e'' 5)\<lparr>Metadata := Some 0\<rparr>)] \<rparr>) \<rparr>"

section \<open>Provider contract\<close>

text \<open>
  \<^verbatim>\<open>template.Message\<close> is declared outside the files at hand; the routers read its role and
  its content only.
\<close>

record Message =
  m_Role :: string
  m_Content :: string

record CompletionRequest =
  Model :: string
  Messages :: "Message list"
  req_MaxTokens :: int

record CompletionResponse =
  resp_ID :: string
  resp_Model :: string
  resp_Content :: string

type_synonym Stream = "string list"

record ModelInfo =
  mi_ID :: string
  mi_Name :: string
  mi_MaxTokens :: int
  InputCost :: real
  OutputCost :: real
  Features :: "string list"

definition HasFeature :: "ModelInfo \<Rightarrow> string \<Rightarrow> bool" where
  "HasFeature m feature = (feature \<in> set (Features m))"

definition FeatureVision :: string where "FeatureVision = ''vision''"
definition FeatureFunctions :: string where "FeatureFunctions = ''functions''"
definition FeatureJSON :: string where "FeatureJSON = ''json_mode''"
definition FeatureStreaming :: string where "FeatureStreaming = ''streaming''"

text \<open>
  A provider is an object behind the \<^verbatim>\<open>Provider\<close> interface. \<open>pid\<close> is its identity (two
  interface values are equal when they are the same object). Its calls act on the world
  outside the router, of type \<open>'w\<close>: a call takes the world and returns its answer with
  the world after the call. An \<open>Inl\<close> answer is the error that the call returns.
\<close>

record 'w Provider =
  pid :: nat
  p_Models :: "ModelInfo list"
  p_Complete :: "'w \<Rightarrow> CompletionRequest \<Rightarrow> (err + CompletionResponse) \<times> 'w"
  p_Stream :: "'w \<Rightarrow> CompletionRequest \<Rightarrow> (err + Stream) \<times> 'w"

section \<open>Base router\<close>

type_synonym Strategy = string

definition StrategyRoundRobin :: Strategy where "StrategyRoundRobin = ''round_robin''"
definition StrategyRandom :: Strategy where "StrategyRandom = ''random''"
definition StrategyLeastLatency :: Strategy where "StrategyLeastLatency = ''least_latency''"
definition StrategyLeastCost :: Strategy where "StrategyLeastCost = ''least_cost''"
definition StrategyWeighted :: Strategy where "StrategyWeighted = ''weighted''"
definition StrategyFallback :: Strategy where "StrategyFallback = ''fallback''"
definition StrategyModelMatch :: Strategy where "StrategyModelMatch = ''model_match''"

text \<open>
  The registry \<^verbatim>\<open>providers\<close> is an association list read with \<open>map_of\<close>; the other maps
  are partial functions. Durations are integers (nanoseconds).
\<close>

record 'w Router =
  providers :: "(string \<times> 'w Provider) list"
  providerList :: "string list"
  weights :: "string \<rightharpoonup> int"
  modelMap :: "string \<rightharpoonup> string"
  strategy :: Strategy
  fallback :: string
  healthCheck :: bool
  healthy :: "string \<rightharpoonup> bool"
  latencies :: "string \<rightharpoonup> int"
  rrIndex :: int

text \<open>
  What the Go runtime and library decide during a call of the router: the number that
  \<^verbatim>\<open>rand.Intn\<close> returns for a bound, and the order in which \<^verbatim>\<open>range\<close> visits the
  registry.
\<close>

record 'w go_runtime =
  Intn :: "int \<Rightarrow> int"
  range_providers :: "(string \<times> 'w Provider) list \<Rightarrow> (string \<times> 'w Provider) list"

datatype Option =
    WithStrategy Strategy
  | WithFallback string
  | WithWeights "string \<rightharpoonup> int"
  | WithModelMap "string \<rightharpoonup> string"
  | WithHealthCheck bool

fun apply_option :: "'w Router \<Rightarrow> Option \<Rightarrow> 'w Router" where
  "apply_option r (WithStrategy s) = r\<lparr>strategy := s\<rparr>"
| "apply_option r (WithFallback p) = r\<lparr>fallback := p\<rparr>"
| "apply_option r (WithWeights ws) = r\<lparr>weights := ws\<rparr>"
| "apply_option r (WithModelMap mm) = r\<lparr>modelMap := mm\<rparr>"
| "apply_option r (WithHealthCheck b) = r\<lparr>healthCheck := b\<rparr>"

definition New :: "Option list \<Rightarrow> 'w Router" where
  "New opts =
     foldl apply_option
       \<lparr> providers = [], providerList = [], weights = Map.empty, modelMap = Map.empty,
         strategy = StrategyRoundRobin, fallback = [], healthCheck = False,
         healthy = Map.empty, latencies = Map.empty, rrIndex = 0 \<rparr>
       opts"

text \<open>The loop of \<^verbatim>\<open>Register\<close> that maps every model not yet mapped to the new provider.\<close>

fun map_models :: "(string \<rightharpoonup> string) \<Rightarrow> string \<Rightarrow> ModelInfo list \<Rightarrow> (string \<rightharpoonup> string)" where
  "map_models mm name [] = mm"
| "map_models mm name (model # rest) =
     (case mm (mi_ID model) of
        None \<Rightarrow> map_models (mm(mi_ID model \<mapsto> name)) name rest
      | Some _ \<Rightarrow> map_models mm name rest)"

definition Register :: "'w Router \<Rightarrow> string \<Rightarrow> 'w Provider \<Rightarrow> 'w Router" where
  "Register r name provider =
     r\<lparr> providers := AList.update name provider (providers r),
        providerList := providerList r @ [name],
        healthy := (healthy r)(name \<mapsto> True),
        weights := (case weights r name of None \<Rightarrow> (weights r)(name \<mapsto> 1) | Some _ \<Rightarrow> weights r),
        modelMap := map_models (modelMap r) name (p_Models provider) \<rparr>"

text \<open>
  \<^verbatim>\<open>Unregister\<close> deletes from the four maps first. The new list is then allocated with the
  capacity \<^verbatim>\<open>len(r.providerList)-1\<close>, which panics on an empty list; the router is left
  with the deletions made. The first component is the panic, if any.
\<close>

definition Unregister :: "'w Router \<Rightarrow> string \<Rightarrow> err option \<times> 'w Router" where
  "Unregister r name =
     (let r = r\<lparr> providers := AList.delete name (providers r),
                 healthy := (healthy r)(name := None),
                 latencies := (latencies r)(name := None),
                 weights := (weights r)(name := None) \<rparr>
      in if providerList r = [] then (Some (Panic ''makeslice: cap out of range''), r)
         else
           (None,
            r\<lparr> providerList := filter (\<lambda>n. n \<noteq> name) (providerList r),
               modelMap := (\<lambda>model. if modelMap r model = Some name then None
                                     else modelMap r model) \<rparr>))"

definition SetHealthy :: "'w Router \<Rightarrow> string \<Rightarrow> bool \<Rightarrow> 'w Router" where
  "SetHealthy r name h = r\<lparr>healthy := (healthy r)(name \<mapsto> h)\<rparr>"

text \<open>Reading a map of Go yields the zero value for a missing key.\<close>

definition is_healthy :: "'w Router \<Rightarrow> string \<Rightarrow> bool" where
  "is_healthy r name = (case healthy r name of None \<Rightarrow> False | Some b \<Rightarrow> b)"

definition latency_of :: "'w Router \<Rightarrow> string \<Rightarrow> int" where
  "latency_of r name = (case latencies r name of None \<Rightarrow> 0 | Some d \<Rightarrow> d)"

definition weight_of :: "'w Router \<Rightarrow> string \<Rightarrow> int" where
  "weight_of r name = (case weights r name of None \<Rightarrow> 0 | Some x \<Rightarrow> x)"

definition getHealthyProviders :: "'w Router \<Rightarrow> string list" where
  "getHealthyProviders r =
     (if \<not> healthCheck r then providerList r
      else filter (\<lambda>name. is_healthy r name) (providerList r))"

text \<open>Indexing a slice; an index out of range panics.\<close>

definition index :: "'a list \<Rightarrow> int \<Rightarrow> err + 'a" where
  "index xs i =
     (if 0 \<le> i \<and> i < int (length xs) then Inr (xs ! nat i)
      else Inl (Panic ''index out of range''))"

text \<open>The remainder of Go's integer division, which truncates towards zero.\<close>

definition go_rem :: "int \<Rightarrow> int \<Rightarrow> int" where
  "go_rem a b = sgn a * (\<bar>a\<bar> mod \<bar>b\<bar>)"

definition go_div :: "int \<Rightarrow> int \<Rightarrow> int" where
  "go_div a b = sgn a * sgn b * (\<bar>a\<bar> div \<bar>b\<bar>)"

text \<open>
  The selection functions return the pair (provider, error) of the source as a sum; the
  provider read from the registry is \<open>None\<close> (a nil interface) when the name is not a key.
\<close>

definition roundRobinSelect ::
  "'w Router \<Rightarrow> string list \<Rightarrow> (err + 'w Provider option) \<times> 'w Router" where
  "roundRobinSelect r available =
     (let idx = go_rem (rrIndex r) (int (length available))
      in case index available idx of
           Inl x \<Rightarrow> (Inl x, r)
         | Inr name \<Rightarrow>
            (let i = add64 (rrIndex r) 1;
                 i = (if i < 0 then 0 else i)
             in (Inr (map_of (providers r) name), r\<lparr>rrIndex := i\<rparr>)))"

definition randomSelect ::
  "'w go_runtime \<Rightarrow> 'w Router \<Rightarrow> string list \<Rightarrow> err + 'w Provider option" where
  "randomSelect rt r available =
     (case index available (Intn rt (int (length available))) of
        Inl x \<Rightarrow> Inl x
      | Inr name \<Rightarrow> Inr (map_of (providers r) name))"

fun leastLatency_loop :: "'w Router \<Rightarrow> string list \<Rightarrow> int \<Rightarrow> string \<Rightarrow> string" where
  "leastLatency_loop r [] minLatency selected = selected"
| "leastLatency_loop r (name # rest) minLatency selected =
     (let latency = latency_of r name
      in if latency = 0 then leastLatency_loop r rest minLatency selected
         else if selected = [] \<or> latency < minLatency
              then leastLatency_loop r rest latency name
              else leastLatency_loop r rest minLatency selected)"

definition leastLatencySelect :: "'w Router \<Rightarrow> string list \<Rightarrow> err + 'w Provider option" where
  "leastLatencySelect r available =
     (let selected = leastLatency_loop r available 0 []
      in if selected = [] then
           (case index available 0 of
              Inl x \<Rightarrow> Inl x
            | Inr first \<Rightarrow> Inr (map_of (providers r) first))
         else Inr (map_of (providers r) selected))"

text \<open>
  \<^verbatim>\<open>leastCostSelect\<close>: the inner loop over the models of provider number \<open>i\<close>, and the outer
  loop over the available names. The state of the loops is the pair
  (\<^verbatim>\<open>minCost\<close>, \<^verbatim>\<open>selected\<close>). Calling \<^verbatim>\<open>Models\<close> on a nil provider panics.
\<close>

fun leastCost_models ::
  "nat \<Rightarrow> string \<Rightarrow> string \<Rightarrow> ModelInfo list \<Rightarrow> real \<times> string \<Rightarrow> real \<times> string" where
  "leastCost_models i name model [] st = st"
| "leastCost_models i name model (m # ms) (minCost, selected) =
     (if model \<noteq> [] \<and> mi_ID m \<noteq> model then leastCost_models i name model ms (minCost, selected)
      else
        (let cost = InputCost m + OutputCost m
         in if i = 0 \<or> cost < minCost
            then leastCost_models i name model ms (cost, name)
            else leastCost_models i name model ms (minCost, selected)))"

fun leastCost_loop ::
  "'w Router \<Rightarrow> string \<Rightarrow> nat \<Rightarrow> string list \<Rightarrow> real \<times> string \<Rightarrow> err + real \<times> string" where
  "leastCost_loop r model i [] st = Inr st"
| "leastCost_loop r model i (name # rest) st =
     (case map_of (providers r) name of
        None \<Rightarrow> Inl (Panic ''nil pointer dereference'')
      | Some provider \<Rightarrow>
         leastCost_loop r model (Suc i) rest
           (leastCost_models i name model (p_Models provider) st))"

definition leastCostSelect ::
  "'w Router \<Rightarrow> string list \<Rightarrow> string \<Rightarrow> err + 'w Provider option" where
  "leastCostSelect r available model =
     (case leastCost_loop r model 0 available (0, []) of
        Inl x \<Rightarrow> Inl x
      | Inr (minCost, selected) \<Rightarrow>
         (if selected = [] then
            (case index available 0 of
               Inl x \<Rightarrow> Inl x
             | Inr first \<Rightarrow> Inr (map_of (providers r) first))
          else Inr (map_of (providers r) selected)))"

fun weighted_loop :: "'w Router \<Rightarrow> string list \<Rightarrow> int \<Rightarrow> int \<Rightarrow> string option" where
  "weighted_loop r [] current target = None"
| "weighted_loop r (name # rest) current target =
     (let current = current + weight_of r name
      in if current > target then Some name else weighted_loop r rest current target)"

definition weightedSelect ::
  "'w go_runtime \<Rightarrow> 'w Router \<Rightarrow> string list \<Rightarrow> err + 'w Provider option" where
  "weightedSelect rt r available =
     (let totalWeight = sum_list (map (weight_of r) available)
      in if totalWeight = 0 then
           (case index available 0 of
              Inl x \<Rightarrow> Inl x
            | Inr first \<Rightarrow> Inr (map_of (providers r) first))
         else if totalWeight < 0 then Inl (Panic ''invalid argument to Intn'')
         else
           (case weighted_loop r available 0 (Intn rt totalWeight) of
              Some name \<Rightarrow> Inr (map_of (providers r) name)
            | None \<Rightarrow>
               (case index available 0 of
                  Inl x \<Rightarrow> Inl x
                | Inr first \<Rightarrow> Inr (map_of (providers r) first))))"

fun fallback_loop :: "'w Router \<Rightarrow> string list \<Rightarrow> err + 'w Provider option" where
  "fallback_loop r [] = Inl (Err ''no healthy providers'')"
| "fallback_loop r (name # rest) =
     (if is_healthy r name then Inr (map_of (providers r) name) else fallback_loop r rest)"

definition fallbackSelect :: "'w Router \<Rightarrow> string list \<Rightarrow> err + 'w Provider option" where
  "fallbackSelect r available = fallback_loop r (providerList r)"

text \<open>The model-match step at the head of \<^verbatim>\<open>selectProvider\<close>.\<close>

definition model_match :: "'w Router \<Rightarrow> CompletionRequest \<Rightarrow> 'w Provider option" where
  "model_match r req =
     (if Model req \<noteq> [] then
        (case modelMap r (Model req) of
           None \<Rightarrow> None
         | Some provName \<Rightarrow>
            (case map_of (providers r) provName of
               None \<Rightarrow> None
             | Some provider \<Rightarrow>
                (if \<not> healthCheck r \<or> is_healthy r provName then Some provider else None)))
      else None)"

definition selectProvider ::
  "'w go_runtime \<Rightarrow> 'w Router \<Rightarrow> CompletionRequest \<Rightarrow> (err + 'w Provider option) \<times> 'w Router" where
  "selectProvider rt r req =
     (if providerList r = [] then (Inl (Err ''no providers registered''), r)
      else
        (case model_match r req of
           Some provider \<Rightarrow> (Inr (Some provider), r)
         | None \<Rightarrow>
            (let available = getHealthyProviders r
             in if available = [] then (Inl (Err ''no healthy providers available''), r)
                else if strategy r = StrategyRoundRobin then roundRobinSelect r available
                else if strategy r = StrategyRandom then (randomSelect rt r available, r)
                else if strategy r = StrategyLeastLatency then (leastLatencySelect r available, r)
                else if strategy r = StrategyLeastCost
                     then (leastCostSelect r available (Model req), r)
                else if strategy r = StrategyWeighted then (weightedSelect rt r available, r)
                else if strategy r = StrategyFallback then (fallbackSelect r available, r)
                else roundRobinSelect r available)))"

text \<open>
  Conversion of a float to an integer, which truncates towards zero. The moving average of
  \<^verbatim>\<open>recordLatency\<close> is taken in the reals; the source takes it in \<^verbatim>\<open>float64\<close>, whose
  rounding can yield the neighbouring integer.
\<close>

definition go_trunc :: "real \<Rightarrow> int" where
  "go_trunc x = (if x \<ge> 0 then \<lfloor>x\<rfloor> else \<lceil>x\<rceil>)"

definition recordLatency :: "'w Router \<Rightarrow> string \<Rightarrow> int \<Rightarrow> 'w Router" where
  "recordLatency r name latency =
     (case latencies r name of
        Some old \<Rightarrow>
          r\<lparr>latencies := (latencies r)(name \<mapsto>
               go_trunc (real_of_int old * (7 / 10) + real_of_int latency * (3 / 10)))\<rparr>
      | None \<Rightarrow> r\<lparr>latencies := (latencies r)(name \<mapsto> latency)\<rparr>)"

fun find_provider_name :: "(string \<times> 'w Provider) list \<Rightarrow> nat \<Rightarrow> string" where
  "find_provider_name [] i = []"
| "find_provider_name ((name, p) # rest) i =
     (if pid p = i then name else find_provider_name rest i)"

definition getProviderName :: "'w go_runtime \<Rightarrow> 'w Router \<Rightarrow> 'w Provider \<Rightarrow> string" where
  "getProviderName rt r provider =
     find_provider_name (range_providers rt (providers r)) (pid provider)"

text \<open>
  \<^verbatim>\<open>Complete\<close> and \<^verbatim>\<open>Stream\<close>. \<open>elapsed\<close> is the duration that the clock measures around the
  first call. The result is the answer, the router after the call and the world after the
  call. A call on a nil provider panics.
\<close>

definition Complete ::
  "'w go_runtime \<Rightarrow> int \<Rightarrow> 'w Router \<Rightarrow> 'w \<Rightarrow> CompletionRequest \<Rightarrow>
     (err + CompletionResponse) \<times> 'w Router \<times> 'w" where
  "Complete rt elapsed r w req =
     (case selectProvider rt r req of
        (Inl e, r) \<Rightarrow> (Inl e, r, w)
      | (Inr None, r) \<Rightarrow> (Inl (Panic ''nil pointer dereference''), r, w)
      | (Inr (Some provider), r) \<Rightarrow>
         (case p_Complete provider w req of
            (resp, w) \<Rightarrow>
              (let r = recordLatency r (getProviderName rt r provider) elapsed
               in case resp of
                    Inl e \<Rightarrow>
                      (if fallback r \<noteq> [] then
                         (case map_of (providers r) (fallback r) of
                            Some fallbackProvider \<Rightarrow>
                              (case p_Complete fallbackProvider w req of
                                 (resp, w) \<Rightarrow> (resp, r, w))
                          | None \<Rightarrow> (Inl e, r, w))
                       else (Inl e, r, w))
                  | Inr x \<Rightarrow> (Inr x, r, w))))"

definition Stream ::
  "'w go_runtime \<Rightarrow> 'w Router \<Rightarrow> 'w \<Rightarrow> CompletionRequest \<Rightarrow>
     (err + Stream) \<times> 'w Router \<times> 'w" where
  "Stream rt r w req =
     (case selectProvider rt r req of
        (Inl e, r) \<Rightarrow> (Inl e, r, w)
      | (Inr None, r) \<Rightarrow> (Inl (Panic ''nil pointer dereference''), r, w)
      | (Inr (Some provider), r) \<Rightarrow>
         (case p_Stream provider w req of
            (stream, w) \<Rightarrow>
              (case stream of
                 Inl e \<Rightarrow>
                   (if fallback r \<noteq> [] then
                      (case map_of (providers r) (fallback r) of
                         Some fallbackProvider \<Rightarrow>
                           (case p_Stream fallbackProvider w req of
                              (stream, w) \<Rightarrow> (stream, r, w))
                       | None \<Rightarrow> (Inl e, r, w))
                    else (Inl e, r, w))
               | Inr x \<Rightarrow> (Inr x, r, w))))"

text \<open>The provider that a failed call is retried on: the one registered under the
  configured fallback name, when that name is not empty.\<close>

definition fallback_provider :: "'w Router \<Rightarrow> 'w Provider option" where
  "fallback_provider r = (if fallback r = [] then None else map_of (providers r) (fallback r))"

text \<open>
  The states a router can be in: built by \<^verbatim>\<open>New\<close> with options, changed by the methods of
  the router and of its builder, and by the bookkeeping of a selection.
\<close>

inductive reachable :: "'w Router \<Rightarrow> bool" where
  r_New: "reachable (New opts)"
| r_Register: "reachable r \<Longrightarrow> reachable (Register r name provider)"
| r_Unregister: "reachable r \<Longrightarrow> reachable (snd (Unregister r name))"
| r_SetHealthy: "reachable r \<Longrightarrow> reachable (SetHealthy r name h)"
| r_AddWithWeight:
    "reachable r \<Longrightarrow> reachable (Register (r\<lparr>weights := (weights r)(name \<mapsto> weight)\<rparr>) name provider)"
| r_Strategy: "reachable r \<Longrightarrow> reachable (r\<lparr>strategy := s\<rparr>)"
| r_Fallback: "reachable r \<Longrightarrow> reachable (r\<lparr>fallback := name\<rparr>)"
| r_MapModel: "reachable r \<Longrightarrow> reachable (r\<lparr>modelMap := (modelMap r)(model \<mapsto> name)\<rparr>)"
| r_EnableHealthCheck: "reachable r \<Longrightarrow> reachable (r\<lparr>healthCheck := True\<rparr>)"
| r_select: "reachable r \<Longrightarrow> reachable (snd (selectProvider rt r req))"
| r_recordLatency: "reachable r \<Longrightarrow> reachable (recordLatency r name d)"

section \<open>Concrete routers\<close>

definition ex_model :: "string \<Rightarrow> real \<Rightarrow> real \<Rightarrow> string list \<Rightarrow> ModelInfo" where
  "ex_model i a b fs = \<lparr> mi_ID = i, mi_Name = i, mi_MaxTokens = 4096, InputCost = a,
                         OutputCost = b, Features = fs \<rparr>"

text \<open>A provider whose calls fail, and one whose calls succeed; the world counts the calls
  made on providers.\<close>

definition failing_provider :: "nat \<Rightarrow> ModelInfo list \<Rightarrow> nat Provider" where
  "failing_provider n ms =
     \<lparr> pid = n, p_Models = ms,
       p_Complete = (\<lambda>w req. (Inl (Err ''upstream''), Suc w)),
       p_Stream = (\<lambda>w req. (Inl (Err ''upstream''), Suc w)) \<rparr>"

definition working_provider :: "nat \<Rightarrow> ModelInfo list \<Rightarrow> nat Provider" where
  "working_provider n ms =
     \<lparr> pid = n, p_Models = ms,
       p_Complete = (\<lambda>w req. (Inr \<lparr> resp_ID = ''r'', resp_Model = Model req,
                                      resp_Content = ''ok'' \<rparr>, Suc w)),
       p_Stream = (\<lambda>w req. (Inr [''ok''], Suc w)) \<rparr>"

definition ex_go_rt :: "nat go_runtime" where
  "ex_go_rt = \<lparr> Intn = (\<lambda>n. 0), range_providers = (\<lambda>ps. ps) \<rparr>"

definition ex_request :: CompletionRequest where
  "ex_request = \<lparr> Model = [], Messages = [\<lparr> m_Role = ''user'', m_Content = ''hello'' \<rparr>],
                   req_MaxTokens = 0 \<rparr>"

text \<open>Two providers under the least-cost strategy: the first offers a model of cost 2 and
  one of cost 10, the second a model of cost 5.\<close>

definition cost_provider_a :: "nat Provider" where
  "cost_provider_a = working_provider 1 [ex_model ''m1'' 1 1 [], ex_model ''m2'' 5 5 []]"

definition cost_provider_b :: "nat Provider" where
  "cost_provider_b = working_provider 2 [ex_model ''m3'' 2 3 []]"

definition cost_router :: "nat Router" where
  "cost_router =
     Register (Register (New [WithStrategy StrategyLeastCost]) ''a'' cost_provider_a)
       ''b'' cost_provider_b"

text \<open>A router with health checking whose only provider serves model \<open>m1\<close>.\<close>

definition match_router :: "nat Router" where
  "match_router = Register (New [WithHealthCheck True]) ''a'' cost_provider_a"

text \<open>Routers for the retry: a failing provider with a working fallback, with itself as
  fallback, and with a fallback name that is not registered.\<close>

definition retry_router :: "string \<Rightarrow> nat Router" where
  "retry_router fb =
     Register (Register (New [WithFallback fb]) ''a'' (failing_provider 1 [ex_model ''m1'' 1 1 []]))
       ''b'' (working_provider 2 [ex_model ''m3'' 2 3 []])"

section \<open>Smart router\<close>

type_synonym TaskType = string
type_synonym TaskComplexity = string
type_synonym RoutingPriority = string

definition PriorityQuality :: RoutingPriority where "PriorityQuality = ''quality''"
definition PriorityCost :: RoutingPriority where "PriorityCost = ''cost''"
definition PriorityLatency :: RoutingPriority where "PriorityLatency = ''latency''"
definition PriorityBalanced :: RoutingPriority where "PriorityBalanced = ''balanced''"

record RoutingConstraints =
  MaxLatencyMs :: int
  MaxCostPerRequest :: real
  MaxInputTokens :: int
  PreferredProviders :: "string list"
  ExcludedProviders :: "string list"
  PreferredModels :: "string list"
  ExcludedModels :: "string list"
  RequireStreaming :: bool
  RequireVision :: bool
  RequireFunctionCalling :: bool
  RequireJSONMode :: bool

record RoutingContext =
  ctx_TaskType :: TaskType
  Complexity :: TaskComplexity
  RequiredCapabilities :: "string list"
  Constraints :: RoutingConstraints
  Hints :: meta
  Priority :: RoutingPriority

definition NewRoutingContext :: "TaskType \<Rightarrow> TaskComplexity \<Rightarrow> RoutingContext" where
  "NewRoutingContext taskType complexity =
     \<lparr> ctx_TaskType = taskType, Complexity = complexity, RequiredCapabilities = [],
       Constraints = \<lparr> MaxLatencyMs = 0, MaxCostPerRequest = 0, MaxInputTokens = 0,
                       PreferredProviders = [], ExcludedProviders = [], PreferredModels = [],
                       ExcludedModels = [], RequireStreaming = False, RequireVision = False,
                       RequireFunctionCalling = False, RequireJSONMode = False \<rparr>,
       Hints = [], Priority = PriorityBalanced \<rparr>"

text \<open>Of a model profile the router reads the two score tables, the latency and the two
  costs.\<close>

record ModelProfile =
  TaskScores :: "TaskType \<rightharpoonup> real"
  ComplexityScores :: "TaskComplexity \<rightharpoonup> real"
  AverageLatencyMs :: int
  InputCostPerMillion :: real
  OutputCostPerMillion :: real

text \<open>
  The smart router embeds the base router. The classifier is a collaborator behind an
  interface (\<open>None\<close> is a nil interface). The routing history is not read by the operations
  modelled here.
\<close>

record 'w SmartRouter =
  base :: "'w Router"
  classifier :: "(CompletionRequest \<Rightarrow> TaskType \<times> TaskComplexity) option"
  modelProfiles :: "string \<rightharpoonup> ModelProfile"
  maxHistorySize :: int
  autoClassify :: bool

record 'w candidate =
  c_provider :: "'w Provider"
  providerName :: string
  modelID :: string
  modelInfo :: ModelInfo
  profile :: "ModelProfile option"

record candidateScore =
  Total :: real
  TaskScore :: real
  ComplexityScore :: real
  CostScore :: real
  LatencyScore :: real
  CapabilityScore :: real
  PreferenceScore :: real

record 'w scoredCandidate =
  sc_candidate :: "'w candidate"
  sc_score :: candidateScore

record ScoreBreakdown =
  sb_TaskScore :: real
  sb_ComplexityScore :: real
  sb_CostScore :: real
  sb_LatencyScore :: real
  sb_CapabilityScore :: real
  sb_PreferenceScore :: real

record AlternativeModel =
  alt_ProviderName :: string
  alt_ModelID :: string
  alt_Score :: real
  alt_Reason :: string

record 'w RoutingDecision =
  d_Provider :: "'w Provider"
  d_ProviderName :: string
  d_ModelID :: string
  d_ModelInfo :: ModelInfo
  d_Reason :: string
  d_Score :: real
  d_Scores :: ScoreBreakdown
  EstimatedCost :: real
  EstimatedLatency :: int
  Alternatives :: "AlternativeModel list"
  DecidedAt :: time
  d_Metadata :: meta

datatype fmt_arg = FStr string | FReal real

text \<open>
  What a call of the smart router takes from its surroundings: the order in which
  \<^verbatim>\<open>range\<close> visits the registry, \<^verbatim>\<open>sort.Slice\<close>, the formatting function of the standard
  library, the reading of the clock, and the texts of the messages (they are not ASCII, and
  no property depends on their wording).
\<close>

record 'w smart_runtime =
  visit_providers :: "(string \<times> 'w Provider) list \<Rightarrow> (string \<times> 'w Provider) list"
  sort_scored :: "('w scoredCandidate \<Rightarrow> 'w scoredCandidate \<Rightarrow> bool) \<Rightarrow>
                    'w scoredCandidate list \<Rightarrow> 'w scoredCandidate list"
  format :: "string \<Rightarrow> fmt_arg list \<Rightarrow> string"
  clock :: time
  text_no_candidates :: string
  text_reason :: string
  text_alternative :: string
  text_general :: string
  text_route_failed :: string
  text_stream_failed :: string

definition isProviderExcluded :: "string \<Rightarrow> RoutingContext option \<Rightarrow> bool" where
  "isProviderExcluded name ctx =
     (case ctx of
        None \<Rightarrow> False
      | Some c \<Rightarrow> name \<in> set (ExcludedProviders (Constraints c)))"

definition isModelExcluded :: "string \<Rightarrow> RoutingContext option \<Rightarrow> bool" where
  "isModelExcluded model ctx =
     (case ctx of
        None \<Rightarrow> False
      | Some c \<Rightarrow> model \<in> set (ExcludedModels (Constraints c)))"

definition meetsCapabilityRequirements :: "ModelInfo \<Rightarrow> RoutingContext option \<Rightarrow> bool" where
  "meetsCapabilityRequirements model ctx =
     (case ctx of
        None \<Rightarrow> True
      | Some c \<Rightarrow>
         (if \<not> list_all (HasFeature model) (RequiredCapabilities c) then False
          else if RequireVision (Constraints c) \<and> \<not> HasFeature model FeatureVision then False
          else if RequireFunctionCalling (Constraints c) \<and> \<not> HasFeature model FeatureFunctions
               then False
          else if RequireStreaming (Constraints c) \<and> \<not> HasFeature model FeatureStreaming
               then False
          else if RequireJSONMode (Constraints c) \<and> \<not> HasFeature model FeatureJSON then False
          else True))"

text \<open>\<^verbatim>\<open>getCandidates\<close>: the inner loop over the models of one provider and the outer loop
  over the registry, in the order in which \<^verbatim>\<open>range\<close> visits it.\<close>

fun provider_candidates ::
  "'w SmartRouter \<Rightarrow> RoutingContext option \<Rightarrow> string \<Rightarrow> 'w Provider \<Rightarrow> ModelInfo list \<Rightarrow>
     'w candidate list" where
  "provider_candidates r ctx name provider [] = []"
| "provider_candidates r ctx name provider (model # rest) =
     (if isModelExcluded (mi_ID model) ctx then provider_candidates r ctx name provider rest
      else if \<not> meetsCapabilityRequirements model ctx
           then provider_candidates r ctx name provider rest
      else \<lparr> c_provider = provider, providerName = name, modelID = mi_ID model,
             modelInfo = model, profile = modelProfiles r (mi_ID model) \<rparr>
           # provider_candidates r ctx name provider rest)"

fun candidates_loop ::
  "'w SmartRouter \<Rightarrow> RoutingContext option \<Rightarrow> (string \<times> 'w Provider) list \<Rightarrow>
     'w candidate list" where
  "candidates_loop r ctx [] = []"
| "candidates_loop r ctx ((name, provider) # rest) =
     (if isProviderExcluded name ctx then candidates_loop r ctx rest
      else if healthCheck (base r) \<and> \<not> is_healthy (base r) name then candidates_loop r ctx rest
      else provider_candidates r ctx name provider (p_Models provider)
           @ candidates_loop r ctx rest)"

definition getCandidates ::
  "'w smart_runtime \<Rightarrow> 'w SmartRouter \<Rightarrow> RoutingContext option \<Rightarrow> 'w candidate list" where
  "getCandidates rt r ctx = candidates_loop r ctx (visit_providers rt (providers (base r)))"

definition calculateTaskScore :: "'w candidate \<Rightarrow> RoutingContext option \<Rightarrow> real" where
  "calculateTaskScore c ctx =
     (case profile c of
        None \<Rightarrow> 1 / 2
      | Some p \<Rightarrow>
         (case ctx of
            None \<Rightarrow> 1 / 2
          | Some x \<Rightarrow>
             (if ctx_TaskType x = [] then 1 / 2
              else (case TaskScores p (ctx_TaskType x) of Some score \<Rightarrow> score | None \<Rightarrow> 1 / 2))))"

definition calculateComplexityScore :: "'w candidate \<Rightarrow> RoutingContext option \<Rightarrow> real" where
  "calculateComplexityScore c ctx =
     (case profile c of
        None \<Rightarrow> 1 / 2
      | Some p \<Rightarrow>
         (case ctx of
            None \<Rightarrow> 1 / 2
          | Some x \<Rightarrow>
             (if Complexity x = [] then 1 / 2
              else (case ComplexityScores p (Complexity x) of
                      Some score \<Rightarrow> score | None \<Rightarrow> 1 / 2))))"

text \<open>\<^verbatim>\<open>estimateCost\<close>: the loop adds a quarter of the byte length of every message, rounded
  down; an output budget of zero counts as 500 tokens.\<close>

definition estimateCost :: "'w candidate \<Rightarrow> CompletionRequest \<Rightarrow> real" where
  "estimateCost c req =
     (let inputTokens = foldl (\<lambda>n msg. n + int (length (m_Content msg)) div 4) 0 (Messages req);
          outputTokens = (if req_MaxTokens req = 0 then 500 else req_MaxTokens req);
          inputCost = real_of_int inputTokens * InputCost (modelInfo c) / 1000000;
          outputCost = real_of_int outputTokens * OutputCost (modelInfo c) / 1000000
      in inputCost + outputCost)"

definition calculateCostScore ::
  "'w candidate \<Rightarrow> RoutingContext option \<Rightarrow> CompletionRequest \<Rightarrow> real" where
  "calculateCostScore c ctx req =
     (let estimatedCost = estimateCost c req
      in if (case ctx of
               None \<Rightarrow> False
             | Some x \<Rightarrow> MaxCostPerRequest (Constraints x) > 0 \<and>
                         estimatedCost > MaxCostPerRequest (Constraints x))
         then 0
         else
           (let maxCost = 1 / 10
            in if estimatedCost \<ge> maxCost then 1 / 10
               else 1 - (estimatedCost / maxCost)))"

definition calculateLatencyScore ::
  "'w SmartRouter \<Rightarrow> 'w candidate \<Rightarrow> RoutingContext option \<Rightarrow> real" where
  "calculateLatencyScore r c ctx =
     (let latency = latency_of (base r) (providerName c);
          latency = (case profile c of
                       None \<Rightarrow> latency
                     | Some p \<Rightarrow> if AverageLatencyMs p > 0
                                 then mul64 (AverageLatencyMs p) 1000000
                                 else latency)
      in if latency = 0 then 1 / 2
         else if (case ctx of
                    None \<Rightarrow> False
                  | Some x \<Rightarrow> MaxLatencyMs (Constraints x) > 0 \<and>
                              go_div latency 1000000 > MaxLatencyMs (Constraints x))
         then 0
         else
           (let maxLatency = 10000;
                latencyMs = real_of_int (go_div latency 1000000)
            in if latencyMs \<ge> maxLatency then 1 / 10
               else 1 - (latencyMs / maxLatency)))"

definition calculateCapabilityScore :: "'w candidate \<Rightarrow> RoutingContext option \<Rightarrow> real" where
  "calculateCapabilityScore c ctx =
     (case ctx of
        None \<Rightarrow> 1
      | Some x \<Rightarrow>
         (if RequiredCapabilities x = [] then 1
          else real (length (filter (HasFeature (modelInfo c)) (RequiredCapabilities x)))
               / real (length (RequiredCapabilities x))))"

definition calculatePreferenceScore :: "'w candidate \<Rightarrow> RoutingContext option \<Rightarrow> real" where
  "calculatePreferenceScore c ctx =
     (case ctx of
        None \<Rightarrow> 1 / 2
      | Some x \<Rightarrow>
         (let score = 1 / 2;
              score = (if providerName c \<in> set (PreferredProviders (Constraints x))
                       then score + 3 / 10 else score);
              score = (if modelID c \<in> set (PreferredModels (Constraints x))
                       then score + 2 / 10 else score)
          in if score > 1 then 1 else score))"

definition calculateTotalScore :: "candidateScore \<Rightarrow> RoutingContext option \<Rightarrow> real" where
  "calculateTotalScore score ctx =
     (let priority = (case ctx of
                        None \<Rightarrow> PriorityBalanced
                      | Some x \<Rightarrow> if Priority x \<noteq> [] then Priority x else PriorityBalanced)
      in if priority = PriorityQuality then
           TaskScore score * (4 / 10) + ComplexityScore score * (25 / 100)
           + CapabilityScore score * (2 / 10) + CostScore score * (5 / 100)
           + LatencyScore score * (5 / 100) + PreferenceScore score * (5 / 100)
         else if priority = PriorityCost then
           CostScore score * (5 / 10) + TaskScore score * (2 / 10)
           + ComplexityScore score * (1 / 10) + CapabilityScore score * (1 / 10)
           + LatencyScore score * (5 / 100) + PreferenceScore score * (5 / 100)
         else if priority = PriorityLatency then
           LatencyScore score * (5 / 10) + TaskScore score * (2 / 10)
           + ComplexityScore score * (1 / 10) + CapabilityScore score * (1 / 10)
           + CostScore score * (5 / 100) + PreferenceScore score * (5 / 100)
         else
           TaskScore score * (25 / 100) + ComplexityScore score * (15 / 100)
           + CostScore score * (2 / 10) + LatencyScore score * (15 / 100)
           + CapabilityScore score * (15 / 100) + PreferenceScore score * (1 / 10))"

definition calculateScore ::
  "'w SmartRouter \<Rightarrow> 'w candidate \<Rightarrow> RoutingContext option \<Rightarrow> CompletionRequest \<Rightarrow>
     candidateScore" where
  "calculateScore r c ctx req =
     (let score = \<lparr> Total = 0,
                    TaskScore = calculateTaskScore c ctx,
                    ComplexityScore = calculateComplexityScore c ctx,
                    CostScore = calculateCostScore c ctx req,
                    LatencyScore = calculateLatencyScore r c ctx,
                    CapabilityScore = calculateCapabilityScore c ctx,
                    PreferenceScore = calculatePreferenceScore c ctx \<rparr>
      in score\<lparr>Total := calculateTotalScore score ctx\<rparr>)"

definition estimateLatency :: "'w SmartRouter \<Rightarrow> 'w candidate \<Rightarrow> int" where
  "estimateLatency r c =
     (if (case profile c of None \<Rightarrow> False | Some p \<Rightarrow> AverageLatencyMs p > 0)
      then (case profile c of None \<Rightarrow> 0 | Some p \<Rightarrow> AverageLatencyMs p)
      else
        (let latency = latency_of (base r) (providerName c)
         in if latency > 0 then go_div latency 1000000 else 1000))"

definition buildDecisionReason ::
  "'w smart_runtime \<Rightarrow> 'w scoredCandidate \<Rightarrow> RoutingContext option \<Rightarrow> string" where
  "buildDecisionReason rt best ctx =
     (let taskType = (case ctx of
                        None \<Rightarrow> text_general rt
                      | Some x \<Rightarrow> if ctx_TaskType x \<noteq> [] then ctx_TaskType x
                                  else text_general rt)
      in format rt (text_reason rt)
           [FStr (modelID (sc_candidate best)), FStr (providerName (sc_candidate best)),
            FStr taskType, FReal (Total (sc_score best)), FReal (TaskScore (sc_score best)),
            FReal (ComplexityScore (sc_score best)), FReal (CostScore (sc_score best)),
            FReal (LatencyScore (sc_score best))])"

definition autoClassifyRequest ::
  "'w SmartRouter \<Rightarrow> CompletionRequest \<Rightarrow> RoutingContext option" where
  "autoClassifyRequest r req =
     (if \<not> autoClassify r then None
      else (case classifier r of
              None \<Rightarrow> None
            | Some classify \<Rightarrow>
               (case classify req of
                  (taskType, complexity) \<Rightarrow> Some (NewRoutingContext taskType complexity))))"

text \<open>The comparison that \<^verbatim>\<open>Route\<close> hands to \<^verbatim>\<open>sort.Slice\<close>.\<close>

definition higher_total :: "'w scoredCandidate \<Rightarrow> 'w scoredCandidate \<Rightarrow> bool" where
  "higher_total a b = (Total (sc_score a) > Total (sc_score b))"

definition alternative :: "'w smart_runtime \<Rightarrow> 'w scoredCandidate \<Rightarrow> AlternativeModel" where
  "alternative rt alt =
     \<lparr> alt_ProviderName = providerName (sc_candidate alt),
       alt_ModelID = modelID (sc_candidate alt),
       alt_Score = Total (sc_score alt),
       alt_Reason = format rt (text_alternative rt) [FReal (Total (sc_score alt))] \<rparr>"

text \<open>The routing context that \<^verbatim>\<open>Route\<close> works with: the given one, or the one that the
  automatic classification supplies.\<close>

definition effective_context ::
  "'w SmartRouter \<Rightarrow> CompletionRequest \<Rightarrow> RoutingContext option \<Rightarrow> RoutingContext option" where
  "effective_context r req routingCtx =
     (case routingCtx of None \<Rightarrow> autoClassifyRequest r req | Some c \<Rightarrow> Some c)"

definition scored_candidates ::
  "'w smart_runtime \<Rightarrow> 'w SmartRouter \<Rightarrow> CompletionRequest \<Rightarrow> RoutingContext option \<Rightarrow>
     'w scoredCandidate list" where
  "scored_candidates rt r req ctx =
     map (\<lambda>c. \<lparr> sc_candidate = c, sc_score = calculateScore r c ctx req \<rparr>)
       (getCandidates rt r ctx)"

definition Route ::
  "'w smart_runtime \<Rightarrow> 'w SmartRouter \<Rightarrow> CompletionRequest \<Rightarrow> RoutingContext option \<Rightarrow>
     err + 'w RoutingDecision" where
  "Route rt r req routingCtx =
     (let routingCtx = effective_context r req routingCtx
      in if getCandidates rt r routingCtx = [] then Inl (Err (text_no_candidates rt))
         else
           (case sort_scored rt higher_total (scored_candidates rt r req routingCtx) of
              [] \<Rightarrow> Inl (Panic ''index out of range'')
            | best # rest \<Rightarrow>
               Inr \<lparr> d_Provider = c_provider (sc_candidate best),
                     d_ProviderName = providerName (sc_candidate best),
                     d_ModelID = modelID (sc_candidate best),
                     d_ModelInfo = modelInfo (sc_candidate best),
                     d_Reason = buildDecisionReason rt best routingCtx,
                     d_Score = Total (sc_score best),
                     d_Scores = \<lparr> sb_TaskScore = TaskScore (sc_score best),
                                  sb_ComplexityScore = ComplexityScore (sc_score best),
                                  sb_CostScore = CostScore (sc_score best),
                                  sb_LatencyScore = LatencyScore (sc_score best),
                                  sb_CapabilityScore = CapabilityScore (sc_score best),
                                  sb_PreferenceScore = PreferenceScore (sc_score best) \<rparr>,
                     EstimatedCost = estimateCost (sc_candidate best) req,
                     EstimatedLatency = estimateLatency r (sc_candidate best),
                     Alternatives = map (alternative rt) (take 3 rest),
                     DecidedAt = clock rt,
                     d_Metadata = [] \<rparr>))"

text \<open>
  \<^verbatim>\<open>StreamWithRouting\<close>: the streaming requirement is written into the routing context when
  the caller passed one. The result is the stream or the error, the decision when one was
  reached, and the world after the call.
\<close>

definition StreamWithRouting ::
  "'w smart_runtime \<Rightarrow> 'w SmartRouter \<Rightarrow> 'w \<Rightarrow> CompletionRequest \<Rightarrow> RoutingContext option \<Rightarrow>
     (err + Stream) \<times> 'w RoutingDecision option \<times> 'w" where
  "StreamWithRouting rt r w req routingCtx =
     (let routingCtx =
            (case routingCtx of
               None \<Rightarrow> None
             | Some c \<Rightarrow>
                Some (c\<lparr> Constraints := (Constraints c)\<lparr>RequireStreaming := True\<rparr>,
                         RequiredCapabilities := RequiredCapabilities c @ [FeatureStreaming] \<rparr>))
      in case Route rt r req routingCtx of
           Inl e \<Rightarrow> (Inl (Wrap (text_route_failed rt) e), None, w)
         | Inr decision \<Rightarrow>
            (let req = req\<lparr>Model := d_ModelID decision\<rparr>
             in case p_Stream (d_Provider decision) w req of
                  (Inl e, w) \<Rightarrow> (Inl (Wrap (text_stream_failed rt) e), Some decision, w)
                | (Inr stream, w) \<Rightarrow> (Inr stream, Some decision, w)))"

text \<open>What \<^verbatim>\<open>sort.Slice\<close> guarantees for the comparison of \<^verbatim>\<open>Route\<close>: the elements are kept
  and no element precedes one that is less than it.\<close>

definition sorts_by_total :: "'w smart_runtime \<Rightarrow> bool" where
  "sorts_by_total rt =
     (\<forall>xs. set (sort_scored rt higher_total xs) = set xs \<and>
           length (sort_scored rt higher_total xs) = length xs \<and>
           sorted_wrt (\<lambda>a b. \<not> higher_total b a) (sort_scored rt higher_total xs))"


section \<open>Concrete candidates and contexts\<close>




text \<open>A smart router over two providers registered in the order \<open>p1\<close>, \<open>p2\<close>, each with
  one model of the same cost and neither with a profile; the first model does not stream.
  The two runtimes differ only in the order in which the registry is visited.\<close>

definition tie_router :: "nat SmartRouter" where
  "tie_router =
     \<lparr> base = Register (Register (New []) ''p1'' (working_provider 1 [ex_model ''m1'' 1 1 []]))
                ''p2'' (working_provider 2 [ex_model ''m2'' 1 1 [''streaming'']]),
       classifier = Some (\<lambda>req. (''chat'', ''simple'')),
       modelProfiles = Map.empty, maxHistorySize = 1000, autoClassify = True \<rparr>"

definition ex_smart_rt ::
  "((string \<times> nat Provider) list \<Rightarrow> (string \<times> nat Provider) list) \<Rightarrow> nat smart_runtime" where
  "ex_smart_rt visit =
     \<lparr> visit_providers = visit, sort_scored = insertionSort,
       format = (\<lambda>f args. f), clock = 7, text_no_candidates = ''no candidates'',
       text_reason = ''reason'', text_alternative = ''alternative'',
       text_general = ''general'', text_route_failed = ''route failed'',
       text_stream_failed = ''stream failed'' \<rparr>"

text \<open>The provider and the model of a decision.\<close>

definition chosen :: "err + 'w RoutingDecision \<Rightarrow> (string \<times> string) option" where
  "chosen res = (case res of Inl _ \<Rightarrow> None | Inr d \<Rightarrow> Some (d_ProviderName d, d_ModelID d))"

section \<open>Properties of the buffer\<close>

lemma saves_window:
  assumes "0 < capacity m" "int (length (entries m)) \<le> capacity m"
  shows "\<exists>m'. saves m xs = Inr m' \<and> capacity m' = capacity m \<and>
           entries m' = drop (length (entries m) + length xs - nat (capacity m))
                          (entries m @ map stamped xs)"
  using assms
proof (induction xs arbitrary: m)
  case Nil
  then show ?case by simp
next
  case (Cons x xs)
  obtain gid now e where x: "x = (gid, now, e)" by (cases x)
  show ?case
  proof (cases "int (length (entries m)) \<ge> capacity m")
    case True
    with Cons.prems obtain y rest where es: "entries m = y # rest"
      by (cases "entries m") auto
    let ?m1 = "m\<lparr>entries := rest @ [stamp gid now e]\<rparr>"
    have s: "Save m gid now e = Inr ?m1"
      using True es by (simp add: Save_def)
    have len: "int (length (entries m)) = capacity m"
      using True Cons.prems by simp
    have p1: "0 < capacity ?m1" "int (length (entries ?m1)) \<le> capacity ?m1"
      using Cons.prems es by simp_all
    from Cons.IH[OF p1] obtain m' where m': "saves ?m1 xs = Inr m'"
      "capacity m' = capacity ?m1"
      "entries m' = drop (length (entries ?m1) + length xs - nat (capacity ?m1))
                      (entries ?m1 @ map stamped xs)"
      by blast
    have n: "nat (capacity m) = Suc (length rest)"
      using len es by simp
    show ?thesis
      using m' s n by (simp add: x es)
  next
    case False
    let ?m1 = "m\<lparr>entries := entries m @ [stamp gid now e]\<rparr>"
    have s: "Save m gid now e = Inr ?m1"
      using False by (simp add: Save_def)
    have p1: "0 < capacity ?m1" "int (length (entries ?m1)) \<le> capacity ?m1"
      using Cons.prems False by simp_all
    from Cons.IH[OF p1] obtain m' where m': "saves ?m1 xs = Inr m'"
      "capacity m' = capacity ?m1"
      "entries m' = drop (length (entries ?m1) + length xs - nat (capacity ?m1))
                      (entries ?m1 @ map stamped xs)"
      by blast
    show ?thesis
      using m' s by (simp add: x)
  qed
qed

lemma NewBuffer_ok:
  "0 < capacity (NewBuffer c) \<and> entries (NewBuffer c) = [] \<and>
   capacity (NewBuffer c) = (if c \<le> 0 then 100 else c)"
  by (simp add: NewBuffer_def)

lemma stamp_fields:
  "stamp gid now e =
     e\<lparr>ID := (if ID e = [] then gid else ID e),
        CreatedAt := (if CreatedAt e = 0 then now else CreatedAt e)\<rparr>"
  by (simp add: stamp_def Let_def)

lemma stamped_fields:
  "stamped x =
     (case x of (gid, now, e) \<Rightarrow>
        e\<lparr>ID := (if ID e = [] then gid else ID e),
           CreatedAt := (if CreatedAt e = 0 then now else CreatedAt e)\<rparr>)"
  by (cases x) (simp add: stamp_fields)

lemma stamped_complete:
  "ID (snd (snd x)) \<noteq> [] \<Longrightarrow> CreatedAt (snd (snd x)) \<noteq> 0 \<Longrightarrow> stamped x = snd (snd x)"
  by (cases x) (simp add: stamp_def)

text \<open>
  C7. A buffer created with capacity \<open>c\<close> (100 when \<open>c \<le> 0\<close>) accepts every save. After
  the saves \<open>xs\<close> (each an entry together with the identifier and the clock reading that
  the save would draw) it has that capacity and holds \<open>min n c\<close> entries, where \<open>n\<close> is the
  number of saves. They are, in the order of insertion, the last \<open>min n c\<close> entries that were
  passed to \<^verbatim>\<open>Save\<close>, every field as passed, except that an empty id is replaced by the
  generated one and a zero creation time by the clock reading. When every entry comes with
  an id and a creation time the buffer holds exactly the last \<open>min n c\<close> entries passed.
\<close>

theorem buffer_keeps_last_saves:
  "\<exists>m. saves (NewBuffer c) xs = Inr m \<and>
       capacity m = (if c \<le> 0 then 100 else c) \<and>
       length (entries m) = min (length xs) (nat (if c \<le> 0 then 100 else c)) \<and>
       entries m =
         drop (length xs - min (length xs) (nat (if c \<le> 0 then 100 else c)))
           (map (\<lambda>(gid, now, e).
                   e\<lparr>ID := (if ID e = [] then gid else ID e),
                      CreatedAt := (if CreatedAt e = 0 then now else CreatedAt e)\<rparr>) xs) \<and>
       ((\<forall>x \<in> set xs. ID (snd (snd x)) \<noteq> [] \<and> CreatedAt (snd (snd x)) \<noteq> 0) \<longrightarrow>
          entries m =
            drop (length xs - min (length xs) (nat (if c \<le> 0 then 100 else c)))
              (map (\<lambda>x. snd (snd x)) xs))"
proof -
  let ?b = "NewBuffer c"
  let ?c = "nat (if c \<le> 0 then 100 else c)"
  have ok: "0 < capacity ?b" "int (length (entries ?b)) \<le> capacity ?b"
    using NewBuffer_ok[of c] by (simp_all split: if_splits)
  from saves_window[OF ok, of xs] obtain m where
    m: "saves ?b xs = Inr m" "capacity m = capacity ?b"
       "entries m = drop (length (entries ?b) + length xs - nat (capacity ?b))
                      (entries ?b @ map stamped xs)"
    by blast
  have cap: "capacity m = (if c \<le> 0 then 100 else c)"
    using m(2) NewBuffer_ok[of c] by simp
  have d: "length xs - min (length xs) ?c = length xs - ?c"
    by simp
  have e: "entries m = drop (length xs - min (length xs) ?c) (map stamped xs)"
    unfolding d using m(3) NewBuffer_ok[of c] by simp
  have l: "length (entries m) = min (length xs) ?c"
    unfolding e d by (simp only: length_drop length_map)
  have s1: "map stamped xs =
      map (\<lambda>(gid, now, e).
             e\<lparr>ID := (if ID e = [] then gid else ID e),
                CreatedAt := (if CreatedAt e = 0 then now else CreatedAt e)\<rparr>) xs"
    by (rule map_cong) (simp_all add: stamped_fields)
  have s2: "map stamped xs = map (\<lambda>x. snd (snd x)) xs"
    if "\<forall>x \<in> set xs. ID (snd (snd x)) \<noteq> [] \<and> CreatedAt (snd (snd x)) \<noteq> 0"
    using that by (intro map_cong) (simp_all add: stamped_complete)
  show ?thesis
  proof (intro exI[of _ m] conjI impI)
    show "saves ?b xs = Inr m" by (rule m(1))
    show "capacity m = (if c \<le> 0 then 100 else c)" by (rule cap)
    show "length (entries m) = min (length xs) ?c" by (rule l)
    show "entries m = drop (length xs - min (length xs) ?c)
        (map (\<lambda>(gid, now, e).
             e\<lparr>ID := (if ID e = [] then gid else ID e),
                CreatedAt := (if CreatedAt e = 0 then now else CreatedAt e)\<rparr>) xs)"
      using e s1 by (simp only:)
    show "entries m = drop (length xs - min (length xs) ?c) (map (\<lambda>x. snd (snd x)) xs)"
      if "\<forall>x \<in> set xs. ID (snd (snd x)) \<noteq> [] \<and> CreatedAt (snd (snd x)) \<noteq> 0"
      using e s2[OF that] by (simp only:)
  qed
qed

theorem buffer_keeps_last_saves_witness:
  "filter (\<lambda>x. ID (snd (snd x)) = [] \<or> CreatedAt (snd (snd x)) = 0) five_saves = [] \<and>
   saves (NewBuffer 3) five_saves =
     Inr \<lparr> entries = [ex_entry ''C'' 3, ex_entry ''D'' 4, ex_entry ''E'' 5], capacity = 3 \<rparr> \<and>
   saves (NewBuffer 3) test_saves =
     Inr \<lparr> entries = [(test_entry ''C'')\<lparr>CreatedAt := 13\<rparr>, (test_entry ''D'')\<lparr>CreatedAt := 14\<rparr>,
                       (test_entry ''E'')\<lparr>CreatedAt := 15\<rparr>], capacity = 3 \<rparr>"
  using buffer_keeps_last_saves [of 3 five_saves] buffer_keeps_last_saves [of 3 test_saves]
  by (auto simp: five_saves_def test_saves_def ex_entry_def test_entry_def)

section \<open>Looking up an absent id\<close>

lemma find_entry_absent: "i \<notin> ID ` set es \<Longrightarrow> find_entry es i = None"
  by (induction es) auto

lemma map_of_absent: "i \<notin> fst ` set kvs \<Longrightarrow> map_of kvs i = None"
  by (simp add: map_of_eq_None_iff)

text \<open>
  C10. \<^verbatim>\<open>Get\<close> of an id that is not present returns a nil entry and a nil error
  (\<open>Inr None\<close>): in the buffer when no entry carries the id, in the vector memory when the
  id is not a key of the entry map, in the multi-layer memory when the id is in none of the
  configured tiers.
\<close>

theorem get_of_absent_id:
  "(i \<notin> ID ` set (entries b) \<longrightarrow> Get b i = Inr None) \<and>
   (i \<notin> fst ` set (v_entries v) \<longrightarrow> Vector_Get v i = Inr None) \<and>
   (i \<notin> ID ` set (entries (working m)) \<and>
    (\<forall>st. shortTerm m = Some st \<longrightarrow> i \<notin> ID ` set (entries (buffer st))) \<and>
    (\<forall>lt. longTerm m = Some lt \<longrightarrow> i \<notin> fst ` set (v_entries lt))
      \<longrightarrow> ML_Get m i = Inr None)"
  by (auto simp: Get_def Vector_Get_def ML_Get_def Summary_Get_def found_def
        find_entry_absent map_of_absent split: option.splits)

theorem get_of_absent_id_witness:
  "Get ex_buffer ''x'' = Inr None \<and> Vector_Get ex_vector ''x'' = Inr None \<and>
   ML_Get ex_multi ''x'' = Inr None"
  using get_of_absent_id [of "''x''" ex_buffer ex_vector ex_multi]
  by (simp add: ex_buffer_def ex_vector_def ex_multi_def ex_summary_def ex_entry_def)

section \<open>Compression in the summary memory\<close>

lemma restamp_id:
  "\<forall>e \<in> set es. ID e \<noteq> [] \<and> CreatedAt e \<noteq> 0 \<Longrightarrow> restamp w i es = es"
  by (induction es arbitrary: i) (auto simp: stamp_def)

lemma length_restamp [simp]: "length (restamp w i es) = length es"
  by (induction es arbitrary: i) auto

lemma reinsert_fits:
  "0 < capacity b \<Longrightarrow> int (length (entries b) + length es) \<le> capacity b \<Longrightarrow>
   reinsert w i b es = Inr (b\<lparr>entries := entries b @ restamp w i es\<rparr>)"
proof (induction es arbitrary: b i)
  case Nil
  then show ?case by simp
next
  case (Cons e es)
  let ?b1 = "b\<lparr>entries := entries b @ [stamp (idGen w i) (Now w i) e]\<rparr>"
  have s: "Save b (idGen w i) (Now w i) e = Inr ?b1"
    using Cons.prems by (simp add: Save_def)
  have "reinsert w (Suc i) ?b1 es = Inr (?b1\<lparr>entries := entries ?b1 @ restamp w (Suc i) es\<rparr>)"
    using Cons.prems by (intro Cons.IH) simp_all
  then show ?case using s by simp
qed

lemma Save_ok:
  assumes "0 < capacity b" "int (length (entries b)) \<le> capacity b"
  shows "\<exists>b'. Save b g t e = Inr b' \<and> capacity b' = capacity b \<and>
           int (length (entries b')) \<le> capacity b' \<and> entries b' \<noteq> []"
  using assms by (cases "entries b") (auto simp: Save_def Let_def)

lemma slice_take: "0 \<le> k \<Longrightarrow> k \<le> int (length xs) \<Longrightarrow>
   slice xs 0 (int (length xs) - k) = Inr (take (length xs - nat k) xs)"
  by (simp add: slice_def nat_diff_distrib')

lemma slice_drop: "0 \<le> k \<Longrightarrow> k \<le> int (length xs) \<Longrightarrow>
   slice xs (int (length xs) - k) (int (length xs)) = Inr (drop (length xs - nat k) xs)"
  by (simp add: slice_def nat_diff_distrib')

lemma doSummarize_ok:
  assumes "0 < capacity (buffer m)" "int (length (entries (buffer m))) \<le> capacity (buffer m)"
      and "0 \<le> KeepRecent (config m)" "KeepRecent (config m) < int (length (entries (buffer m)))"
  shows "doSummarize w m =
     (case summarizer m (summary_prompt w m
              (take (length (entries (buffer m)) - nat (KeepRecent (config m))) (entries (buffer m)))) of
        Inl e \<Rightarrow> Inl (Wrap ''summarize failed'' e)
      | Inr s \<Rightarrow> Inr (m\<lparr> summary := s, summaryTime := Now w 1,
                         buffer := (buffer m)\<lparr>entries := restamp w 2
                            (drop (length (entries (buffer m)) - nat (KeepRecent (config m)))
                               (entries (buffer m)))\<rparr> \<rparr>))"
proof -
  let ?es = "entries (buffer m)"
  let ?k = "KeepRecent (config m)"
  have r: "reinsert w 2 (Clear (buffer m)) (drop (length ?es - nat ?k) ?es) =
        Inr ((Clear (buffer m))\<lparr>entries := entries (Clear (buffer m)) @
               restamp w 2 (drop (length ?es - nat ?k) ?es)\<rparr>)"
    using assms by (intro reinsert_fits) (simp_all add: Clear_def)
  show ?thesis
    using assms r
    by (simp add: doSummarize_def Entries_def slice_take slice_drop Clear_def Let_def
          split: sum.splits)
qed

lemma doSummarize_short:
  "int (length (entries (buffer m))) \<le> KeepRecent (config m) \<Longrightarrow> doSummarize w m = Inr m"
  by (simp add: doSummarize_def Entries_def)

lemma shouldSummarize_iff:
  "shouldSummarize m \<longleftrightarrow>
     (MaxEntries (config m) > 0 \<and> EntryCount (Stats (buffer m)) > MaxEntries (config m)) \<or>
     (MaxTokens (config m) > 0 \<and> TokenCount (Stats (buffer m)) > MaxTokens (config m))"
  by (simp add: shouldSummarize_def Let_def)

lemma Stats_counts:
  "EntryCount (Stats b) = int (length (entries b)) \<and> TokenCount (Stats b) = 0"
  by (simp add: Stats_def Let_def)

lemma Save_entries:
  assumes "0 < capacity b" "int (length (entries b)) \<le> capacity b"
  shows "\<exists>b'. Save b g t e = Inr b' \<and> capacity b' = capacity b \<and>
           int (length (entries b')) \<le> capacity b' \<and>
           entries b' = drop (Suc (length (entries b)) - nat (capacity b))
                          (entries b @ [e\<lparr>ID := (if ID e = [] then g else ID e),
                                           CreatedAt := (if CreatedAt e = 0 then t else CreatedAt e)\<rparr>])"
proof -
  from saves_window[OF assms, of "[(g, t, e)]"] obtain b' where
    b': "saves b [(g, t, e)] = Inr b'" "capacity b' = capacity b"
        "entries b' = drop (length (entries b) + length [(g, t, e)] - nat (capacity b))
                        (entries b @ map stamped [(g, t, e)])"
    by blast
  have s: "Save b g t e = Inr b'"
    using b'(1) by (simp split: sum.splits)
  have "int (length (entries b')) \<le> capacity b'"
    using Save_ok[OF assms, of g t e] s by auto
  moreover have "entries b' = drop (Suc (length (entries b)) - nat (capacity b))
       (entries b @ [e\<lparr>ID := (if ID e = [] then g else ID e),
                        CreatedAt := (if CreatedAt e = 0 then t else CreatedAt e)\<rparr>])"
    unfolding b'(3) by (simp add: stamp_fields)
  ultimately show ?thesis
    using s b'(2) by blast
qed

text \<open>
  C8 (as amended). Let the buffer of a summary memory be within its capacity and
  \<open>keep_recent\<close> be non-negative. A save stores the entry (after dropping the oldest one
  from a full buffer) and returns no error. If \<open>max_entries > 0\<close> and the entry count now
  exceeds it, compression is triggered; if neither this holds nor the token threshold is
  switched on (\<open>max_tokens \<le> 0\<close>), it is not, and the memory is left as the save made it.
  Compression with more than \<open>keep_recent\<close> entries calls the summarizer on all but the
  \<open>keep_recent\<close> most recent entries; if it succeeds, its answer becomes the summary and
  the buffer keeps the \<open>keep_recent\<close> most recent entries (unchanged when they carry an id
  and a creation time, as stored entries do), if it fails the memory keeps every entry.
  Compression with at most \<open>keep_recent\<close> entries changes nothing.

  The statement is silent on a configuration with \<open>max_tokens > 0\<close> whose entry threshold is
  not exceeded; see \<open>token_threshold_never_reached\<close> below.
\<close>

theorem summary_save_compresses:
  assumes "0 < capacity (buffer m)"
      and "int (length (entries (buffer m))) \<le> capacity (buffer m)"
      and "0 \<le> KeepRecent (config m)"
  shows "\<exists>b. Save (buffer m) (idGen w 0) (Now w 0) entry = Inr b \<and>
     entries b =
       drop (Suc (length (entries (buffer m))) - nat (capacity (buffer m)))
         (entries (buffer m) @
          [entry\<lparr>ID := (if ID entry = [] then idGen w 0 else ID entry),
                 CreatedAt := (if CreatedAt entry = 0 then Now w 0 else CreatedAt entry)\<rparr>]) \<and>
     (let m1 = m\<lparr>buffer := b\<rparr>;
          n = length (entries b);
          k = nat (KeepRecent (config m));
          over_entries = (MaxEntries (config m) > 0 \<and> int n > MaxEntries (config m));
          kept = drop (n - k) (entries b);
          compressed =
            (if k < n then
               (case summarizer m (summary_prompt w m1 (take (n - k) (entries b))) of
                  Inl e \<Rightarrow> m1
                | Inr s \<Rightarrow>
                   m1\<lparr> summary := s, summaryTime := Now w 1,
                       buffer := b\<lparr>entries := restamp w 2 kept\<rparr> \<rparr>)
             else m1)
      in (\<exists>m'. Summary_Save w m entry = Inr m') \<and>
         (over_entries \<longrightarrow>
            shouldSummarize m1 \<and> Summary_Save w m entry = Inr compressed) \<and>
         (\<not> over_entries \<and> MaxTokens (config m) \<le> 0 \<longrightarrow>
            \<not> shouldSummarize m1 \<and> Summary_Save w m entry = Inr m1) \<and>
         ((\<forall>e \<in> set kept. ID e \<noteq> [] \<and> CreatedAt e \<noteq> 0) \<longrightarrow> restamp w 2 kept = kept))"
proof -
  from Save_entries[OF assms(1,2), of "idGen w 0" "Now w 0" entry] obtain b where
    b: "Save (buffer m) (idGen w 0) (Now w 0) entry = Inr b"
       "capacity b = capacity (buffer m)" "int (length (entries b)) \<le> capacity b"
       "entries b =
          drop (Suc (length (entries (buffer m))) - nat (capacity (buffer m)))
            (entries (buffer m) @
             [entry\<lparr>ID := (if ID entry = [] then idGen w 0 else ID entry),
                    CreatedAt := (if CreatedAt entry = 0 then Now w 0 else CreatedAt entry)\<rparr>])"
    by blast
  define m1 where "m1 = m\<lparr>buffer := b\<rparr>"
  define n where "n = length (entries b)"
  define k where "k = nat (KeepRecent (config m))"
  define over where "over \<longleftrightarrow> MaxEntries (config m) > 0 \<and> int n > MaxEntries (config m)"
  define kept where "kept = drop (n - k) (entries b)"
  define fin where "fin = (\<lambda>s. m1\<lparr> summary := s, summaryTime := Now w 1,
                          buffer := b\<lparr>entries := restamp w 2 kept\<rparr> \<rparr>)"
  define compressed where "compressed =
     (if k < n then
        (case summarizer m (summary_prompt w m1 (take (n - k) (entries b))) of
           Inl e \<Rightarrow> m1 | Inr s \<Rightarrow> fin s)
      else m1)"
  have t: "shouldSummarize m1 \<longleftrightarrow> over"
    using shouldSummarize_iff[of m1] Stats_counts[of b]
    by (auto simp: m1_def over_def n_def)
  have unf: "Summary_Save w m entry =
      (if shouldSummarize m1 then
         (case doSummarize w m1 of
            Inl x \<Rightarrow> (if is_panic x then Inl x else Inr m1)
          | Inr m' \<Rightarrow> Inr m')
       else Inr m1)"
    unfolding m1_def using b(1) by (simp add: Summary_Save_def Let_def)
  have not_over: "Summary_Save w m entry = Inr m1" if "\<not> over"
    using unf t that by simp
  have is_over: "Summary_Save w m entry = Inr compressed" if over
  proof (cases "k < n")
    case False
    then have "int (length (entries (buffer m1))) \<le> KeepRecent (config m1)"
      using assms(3) by (simp add: m1_def n_def k_def)
    then have "doSummarize w m1 = Inr m1" by (rule doSummarize_short)
    then show ?thesis using unf t that False by (simp add: compressed_def)
  next
    case kn: True
    have p: "0 < capacity (buffer m1)"
      "int (length (entries (buffer m1))) \<le> capacity (buffer m1)"
      "0 \<le> KeepRecent (config m1)"
      "KeepRecent (config m1) < int (length (entries (buffer m1)))"
      using assms b kn by (simp_all add: m1_def n_def k_def)
    have d: "doSummarize w m1 =
       (case summarizer m (summary_prompt w m1 (take (n - k) (entries b))) of
          Inl e \<Rightarrow> Inl (Wrap ''summarize failed'' e)
        | Inr s \<Rightarrow> Inr (fin s))"
      using doSummarize_ok[OF p, of w]
      by (simp add: m1_def n_def k_def fin_def kept_def cong: sum.case_cong)
    show ?thesis
      using unf t that kn d by (auto simp: compressed_def split: sum.splits)
  qed
  have total: "\<exists>m'. Summary_Save w m entry = Inr m'"
    using not_over is_over by (cases over) auto
  have keep: "restamp w 2 kept = kept" if "\<forall>e \<in> set kept. ID e \<noteq> [] \<and> CreatedAt e \<noteq> 0"
    using that by (rule restamp_id)
  from b(1) b(4) total t not_over is_over keep show ?thesis
    unfolding Let_def m1_def n_def k_def over_def kept_def fin_def compressed_def by blast
qed

theorem summary_save_compresses_witness:
  "0 < capacity (buffer ex_summary) \<and>
   int (length (entries (buffer ex_summary))) \<le> capacity (buffer ex_summary) \<and>
   0 \<le> KeepRecent (config ex_summary) \<and>
   MaxEntries (config ex_summary) > 0 \<and>
   Summary_Save ex_world ex_summary (ex_entry [] 0) =
     Inr (ex_summary\<lparr> summary := ''digest'', summaryTime := 9,
                       buffer := \<lparr> entries = [ex_entry ''mem-1'' 9], capacity = 3 \<rparr> \<rparr>) \<and>
   0 < capacity (buffer ex_summary_roomy) \<and>
   int (length (entries (buffer ex_summary_roomy))) \<le> capacity (buffer ex_summary_roomy) \<and>
   0 \<le> KeepRecent (config ex_summary_roomy) \<and>
   MaxTokens (config ex_summary_roomy) \<le> 0 \<and>
   Summary_Save ex_world ex_summary_roomy (ex_entry [] 0) =
     Inr (ex_summary_roomy\<lparr> buffer :=
            \<lparr> entries = [ex_entry ''c'' 3, ex_entry ''d'' 4, ex_entry ''mem-1'' 9],
              capacity = 3 \<rparr> \<rparr>)"
  using summary_save_compresses [of ex_summary ex_world "ex_entry [] 0"]
        summary_save_compresses [of ex_summary_roomy ex_world "ex_entry [] 0"]
  by (simp add: ex_summary_roomy_def ex_summary_def ex_config_def ex_world_def ex_entry_def
        Save_def stamp_def Stats_def Let_def)

text \<open>
  C8 as it was stated fails in two ways. With \<open>max_entries = 0\<close> the entry count exceeds the
  threshold and nothing is triggered. With a summarizer that returns an error, a save
  that triggers compression with three entries and \<open>keep_recent = 1\<close> removes none of them.
\<close>

theorem summary_trigger_counterexample:
  "EntryCount (Stats (buffer ex_summary_off)) > MaxEntries (config ex_summary_off) \<and>
   \<not> shouldSummarize ex_summary_off \<and>
   Summary_Save ex_world ex_summary_failing (ex_entry [] 0) =
     Inr (ex_summary_failing\<lparr> buffer :=
            \<lparr> entries = [ex_entry ''c'' 3, ex_entry ''d'' 4, ex_entry ''mem-1'' 9],
              capacity = 3 \<rparr> \<rparr>) \<and>
   shouldSummarize (ex_summary_failing\<lparr> buffer :=
            \<lparr> entries = [ex_entry ''c'' 3, ex_entry ''d'' 4, ex_entry ''mem-1'' 9],
              capacity = 3 \<rparr> \<rparr>) \<and>
   KeepRecent (config ex_summary_failing) = 1"
  by (simp add: ex_summary_off_def ex_summary_failing_def ex_summary_def ex_config_def
        ex_world_def ex_entry_def shouldSummarize_def Stats_def Let_def Summary_Save_def
        Save_def stamp_def doSummarize_def Entries_def slice_def)

text \<open>
  The configuration documents \<open>max_tokens\<close> as a second trigger, and \<^verbatim>\<open>shouldSummarize\<close>
  compares it with the token count of the buffer's statistics. \<^verbatim>\<open>BufferMemory.Stats\<close> never
  fills that count in, so the comparison is made with zero: a memory whose entry threshold
  is not exceeded is never compressed, whatever its entries hold. Below, a budget of ten
  tokens and a buffer of three entries of forty characters each.
\<close>

lemma token_threshold_never_reached:
  "\<not> (MaxEntries (config m) > 0 \<and> EntryCount (Stats (buffer m)) > MaxEntries (config m))
     \<Longrightarrow> \<not> shouldSummarize m"
  by (simp add: shouldSummarize_def Stats_def Let_def)

lemma token_threshold_example:
  "MaxTokens (config ex_summary_wordy) = 10 \<and>
   map (\<lambda>e. length (Content e)) (entries (buffer ex_summary_wordy)) = [40, 40] \<and>
   Summary_Save ex_world ex_summary_wordy (long_entry ''f'' 5) =
     Inr (ex_summary_wordy\<lparr> buffer :=
            \<lparr> entries = [long_entry ''c'' 3, long_entry ''d'' 4, long_entry ''f'' 5],
              capacity = 3 \<rparr> \<rparr>)"
  by (simp add: ex_summary_wordy_def ex_summary_def ex_config_def ex_world_def long_entry_def
        shouldSummarize_def Stats_def Let_def Summary_Save_def Save_def stamp_def)

section \<open>Search across the tiers\<close>

lemma put_simps [simp]:
  "next_free (put a k v h) = next_free h"
  "cells (put a k v h) b = (if b = a then AList.update k v (cells h a) else cells h b)"
  by (simp_all add: put_def)

lemma make_map_simps:
  "fst (make_map h) = next_free h"
  "next_free (snd (make_map h)) = Suc (next_free h)"
  "cells (snd (make_map h)) b = (if b = next_free h then [] else cells h b)"
  by (simp_all add: make_map_def)

lemma delete_layer_update:
  "AList.delete ''_layer'' (AList.update k v al) =
     (if k = ''_layer'' then AList.delete ''_layer'' al
      else AList.update k v (AList.delete ''_layer'' al))"
  by (cases "k = ''_layer''") (simp_all add: delete_update delete_update_same)

lemma refs_iff: "a \<in> set (refs es) \<longleftrightarrow> (\<exists>e \<in> set es. Metadata e = Some a)"
  by (induction es) (auto simp: refs_def split: option.splits)

lemma refs_memI: "e \<in> set es \<Longrightarrow> Metadata e = Some a \<Longrightarrow> a \<in> set (refs es)"
  unfolding refs_iff by blast

lemma refs_mono: "set es \<subseteq> set es' \<Longrightarrow> set (refs es) \<subseteq> set (refs es')"
  unfolding refs_iff subset_iff by blast

lemma refs_Cons:
  "set (refs (e # es)) = (case Metadata e of None \<Rightarrow> {} | Some a \<Rightarrow> {a}) \<union> set (refs es)"
  by (simp add: refs_def split: option.splits)

lemma unchanged_refl: "unchanged X h h"
  by (simp add: unchanged_def)

lemma unchanged_trans:
  "unchanged X h h' \<Longrightarrow> unchanged Y h' h'' \<Longrightarrow> unchanged (X \<union> Y) h h''"
  by (auto simp: unchanged_def)

lemma unchanged_mono: "unchanged X h h' \<Longrightarrow> X \<subseteq> Y \<Longrightarrow> unchanged Y h h'"
  by (auto simp: unchanged_def)

lemma unchanged_next: "unchanged X h h' \<Longrightarrow> next_free h \<le> next_free h'"
  by (simp add: unchanged_def)

lemma sv_eq:
  "sv h e = (e\<lparr>Metadata := None\<rparr>, AList.delete ''_layer'' (meta_of (Metadata e) h))"
  by (simp add: sv_def strip_layer_def seen_def)

lemma sv_stable:
  assumes "unchanged X h h'"
      and "\<forall>a \<in> set (refs es). a < next_free h \<and> a \<notin> X"
  shows "map (sv h') es = map (sv h) es"
proof (rule map_cong[OF refl])
  fix e assume e: "e \<in> set es"
  show "sv h' e = sv h e"
  proof (cases "Metadata e")
    case None
    then show ?thesis by (simp add: sv_eq meta_of_def)
  next
    case (Some a)
    with e assms(2) have "a < next_free h" "a \<notin> X" by (auto simp: refs_iff)
    with assms(1) show ?thesis using Some by (simp add: sv_eq meta_of_def unchanged_def)
  qed
qed

lemma addLayerMeta_step:
  assumes "addLayerMeta r l h = (r', h')" and "\<forall>a. r = Some a \<longrightarrow> a < next_free h"
  shows "unchanged {} h h' \<and>
         (\<exists>a. r' = Some a \<and> a < next_free h' \<and>
              AList.delete ''_layer'' (cells h' a) = AList.delete ''_layer'' (meta_of r h) \<and>
              (r = Some a \<or> (r = None \<and> next_free h \<le> a)))"
  using assms
  by (cases r)
     (auto simp: addLayerMeta_def make_map_def put_def unchanged_def meta_of_def
        delete_layer_update)

lemma tag_entries_step:
  assumes "tag_entries l es h = (es', h')" and "\<forall>a \<in> set (refs es). a < next_free h"
  shows "unchanged {} h h' \<and> map (sv h') es' = map (sv h) es \<and>
         (\<forall>a \<in> set (refs es'). a < next_free h') \<and>
         set (refs es') \<subseteq> set (refs es) \<union> {a. next_free h \<le> a}"
  using assms
proof (induction es arbitrary: h es' h')
  case Nil
  then show ?case by (simp add: unchanged_refl refs_def)
next
  case (Cons e es)
  obtain r h1 where a: "addLayerMeta (Metadata e) l h = (r, h1)" by force
  obtain es1 h2 where t: "tag_entries l es h1 = (es1, h2)" by force
  from Cons.prems(1) a t have es': "es' = e\<lparr>Metadata := r\<rparr> # es1" and h': "h' = h2"
    by simp_all
  have pe: "\<forall>a. Metadata e = Some a \<longrightarrow> a < next_free h"
    using Cons.prems(2) by (auto simp: refs_iff)
  from addLayerMeta_step[OF a pe] obtain b where
    u1: "unchanged {} h h1" and rb: "r = Some b" and b1: "b < next_free h1" and
    cb: "AList.delete ''_layer'' (cells h1 b) = AList.delete ''_layer'' (meta_of (Metadata e) h)" and
    ob: "Metadata e = Some b \<or> (Metadata e = None \<and> next_free h \<le> b)"
    by blast
  have pes: "\<forall>a \<in> set (refs es). a < next_free h"
    using Cons.prems(2) by (auto simp: refs_iff)
  then have pes1: "\<forall>a \<in> set (refs es). a < next_free h1"
    using unchanged_next[OF u1] by auto
  from Cons.IH[OF t pes1] have
    u2: "unchanged {} h1 h2" and v2: "map (sv h2) es1 = map (sv h1) es" and
    a2: "\<forall>a \<in> set (refs es1). a < next_free h2" and
    s2: "set (refs es1) \<subseteq> set (refs es) \<union> {a. next_free h1 \<le> a}"
    by blast+
  have v1: "map (sv h1) es = map (sv h) es"
    using sv_stable[OF u1] pes by simp
  have hd: "sv h2 (e\<lparr>Metadata := r\<rparr>) = sv h e"
    using u2 b1 cb rb by (simp add: sv_eq meta_of_def unchanged_def)
  have u: "unchanged {} h h2"
    using unchanged_trans[OF u1 u2] by simp
  have al: "\<forall>a \<in> set (refs es'). a < next_free h'"
    using a2 b1 unchanged_next[OF u2] rb by (auto simp: es' h' refs_iff)
  have sub: "set (refs es') \<subseteq> set (refs (e # es)) \<union> {a. next_free h \<le> a}"
  proof
    fix x assume "x \<in> set (refs es')"
    then consider "x = b" | "x \<in> set (refs es1)"
      by (auto simp: es' rb refs_Cons)
    then show "x \<in> set (refs (e # es)) \<union> {a. next_free h \<le> a}"
    proof cases
      case 1
      then show ?thesis using ob by (auto simp: refs_Cons)
    next
      case 2
      with s2 have "x \<in> set (refs es) \<or> next_free h1 \<le> x" by auto
      then show ?thesis using unchanged_next[OF u1] by (auto simp: refs_Cons)
    qed
  qed
  show ?case
    using u v2 v1 hd al sub by (simp add: es' h')
qed

lemma map_of_delete_other: "k \<noteq> k' \<Longrightarrow> map_of (AList.delete k' al) k = map_of al k"
  by (simp add: delete_conv)

lemma matchQuery_cong:
  assumes "''_layer'' \<notin> fst ` set (q_Metadata q)"
      and "\<forall>a. Metadata e = Some a \<longrightarrow>
             AList.delete ''_layer'' (cells h' a) = AList.delete ''_layer'' (cells h a)"
  shows "matchQuery e q h' = matchQuery e q h"
proof (cases "Metadata e")
  case None
  then show ?thesis by (simp add: matchQuery_def)
next
  case (Some a)
  have "map_of (cells h' a) k = map_of (cells h a) k" if "k \<in> fst ` set (q_Metadata q)" for k
  proof -
    from that assms(1) have k: "k \<noteq> ''_layer''" by blast
    have "map_of (cells h' a) k = map_of (AList.delete ''_layer'' (cells h' a)) k"
      using k by (simp add: map_of_delete_other)
    also have "\<dots> = map_of (AList.delete ''_layer'' (cells h a)) k"
      using assms(2) Some by simp
    also have "\<dots> = map_of (cells h a) k"
      using k by (simp add: map_of_delete_other)
    finally show ?thesis .
  qed
  then have "list_all (\<lambda>k. map_of (cells h' a) k = map_of (q_Metadata q) k) (map fst (q_Metadata q))
           = list_all (\<lambda>k. map_of (cells h a) k = map_of (q_Metadata q) k) (map fst (q_Metadata q))"
    by (auto simp: list_all_iff)
  then show ?thesis using Some by (simp add: matchQuery_def)
qed

lemma filter_match_cong:
  assumes "''_layer'' \<notin> fst ` set (q_Metadata q)"
      and "\<forall>a \<in> set (refs es).
             AList.delete ''_layer'' (cells h' a) = AList.delete ''_layer'' (cells h a)"
  shows "filter (\<lambda>e. matchQuery e q h') es = filter (\<lambda>e. matchQuery e q h) es"
proof (rule filter_cong[OF refl])
  fix e assume "e \<in> set es"
  then have "\<forall>a. Metadata e = Some a \<longrightarrow>
             AList.delete ''_layer'' (cells h' a) = AList.delete ''_layer'' (cells h a)"
    using assms(2) by (auto simp: refs_iff)
  from matchQuery_cong[OF assms(1) this] show "matchQuery e q h' = matchQuery e q h" .
qed

lemma Search_cong:
  assumes "''_layer'' \<notin> fst ` set (q_Metadata q)"
      and "\<forall>a \<in> set (refs (entries b)).
             AList.delete ''_layer'' (cells h' a) = AList.delete ''_layer'' (cells h a)"
  shows "Search b q h' = Search b q h"
  using filter_match_cong[OF assms] by (simp add: Search_def)

lemma slice_subset: "slice xs lo hi = Inr ys \<Longrightarrow> set ys \<subseteq> set xs"
  by (auto simp: slice_def split: if_splits dest: in_set_takeD in_set_dropD)

lemma paginate_subset: "paginate xs q = Inr ys \<Longrightarrow> set ys \<subseteq> set xs"
  by (auto simp: paginate_def Let_def split: if_splits dest!: slice_subset)

lemma Search_subset: "set (hits_of (Search b q h)) \<subseteq> set (entries b)"
proof (cases "Search b q h")
  case (Inl x)
  then show ?thesis by (simp add: hits_of_def)
next
  case (Inr ys)
  then have "set ys \<subseteq> set (entries b)"
    by (auto simp: Search_def Let_def split: if_splits dest!: paginate_subset)
  then show ?thesis using Inr by (simp add: hits_of_def)
qed

lemma layer_hits_step:
  assumes "layer_hits l r h = (r', h')" and "\<not> panicked r"
      and "\<forall>a \<in> set (refs (hits_of r)). a < next_free h"
  shows "\<exists>es'. r' = Inr es' \<and> unchanged {} h h' \<and>
           map (sv h') es' = map (sv h) (hits_of r) \<and>
           (\<forall>a \<in> set (refs es'). a < next_free h') \<and>
           set (refs es') \<subseteq> set (refs (hits_of r)) \<union> {a. next_free h \<le> a}"
proof (cases r)
  case (Inl x)
  then show ?thesis
    using assms by (auto simp: layer_hits_def panicked_def hits_of_def unchanged_refl refs_def)
next
  case (Inr es)
  obtain es' h2 where t: "tag_entries l es h = (es', h2)" by force
  have "\<forall>a \<in> set (refs es). a < next_free h"
    using assms(3) Inr by (simp add: hits_of_def)
  from tag_entries_step[OF t this] show ?thesis
    using assms(1) Inr t by (auto simp: layer_hits_def hits_of_def)
qed

lemma vector_hits_Cons:
  "vector_hits m q (r # rs) h =
     (case selects m q r h of
        None \<Rightarrow> vector_hits m q rs h
      | Some entry \<Rightarrow>
         (case with_score entry (Score r) h of
            (e', h1) \<Rightarrow>
              (case vector_hits m q rs h1 of (rest, h2) \<Rightarrow> (e' # rest, h2))))"
  by (simp add: selects_def with_score_def split: option.splits prod.splits)

lemma selects_stored:
  "selects m q r h = Some entry \<Longrightarrow> entry \<in> set (map snd (v_entries m))"
  by (auto simp: selects_def split: if_splits option.splits dest!: map_of_SomeD)
     (metis image_eqI snd_conv)

lemma selects_cong:
  assumes "''_layer'' \<notin> fst ` set (q_Metadata q)"
      and "\<forall>a \<in> set (refs (map snd (v_entries m))).
             AList.delete ''_layer'' (cells h' a) = AList.delete ''_layer'' (cells h a)"
  shows "selects m q r h' = selects m q r h"
proof (cases "map_of (v_entries m) (vr_ID r)")
  case None
  then show ?thesis by (simp add: selects_def)
next
  case (Some entry)
  then have "entry \<in> set (map snd (v_entries m))"
    by (metis image_eqI map_of_SomeD set_map snd_conv)
  then have "\<forall>a. Metadata entry = Some a \<longrightarrow>
             AList.delete ''_layer'' (cells h' a) = AList.delete ''_layer'' (cells h a)"
    using assms(2) by (blast intro: refs_memI)
  from matchQuery_cong[OF assms(1) this] show ?thesis
    using Some by (simp add: selects_def)
qed

lemma with_score_frame:
  assumes "with_score entry s h = (e', h1)"
      and "\<forall>a. Metadata entry = Some a \<longrightarrow> a < next_free h \<and> a \<in> X"
  shows "unchanged X h h1 \<and>
         (\<exists>a. Metadata e' = Some a \<and> a < next_free h1 \<and>
              (Metadata entry = Some a \<or> next_free h \<le> a))"
  using assms
  by (cases "Metadata entry")
     (auto simp: with_score_def make_map_def put_def unchanged_def)

lemma with_score_sim:
  assumes "related n ha hb"
      and "\<forall>a. Metadata entry = Some a \<longrightarrow> a < n"
      and "with_score entry s ha = (ea, ha1)" and "with_score entry s hb = (eb, hb1)"
  shows "related n ha1 hb1 \<and> ea\<lparr>Metadata := None\<rparr> = eb\<lparr>Metadata := None\<rparr> \<and>
         (\<exists>a b. Metadata ea = Some a \<and> Metadata eb = Some b \<and>
                a < next_free ha1 \<and> b < next_free hb1 \<and>
                ((a = b \<and> a < n) \<or>
                 (n \<le> a \<and> n \<le> b \<and>
                  AList.delete ''_layer'' (cells ha1 a) = AList.delete ''_layer'' (cells hb1 b))))"
proof (cases "Metadata entry")
  case None
  then show ?thesis
    using assms
    by (auto simp: with_score_def make_map_def put_def related_def)
next
  case (Some a)
  then have "a < n" using assms(2) by simp
  then show ?thesis
    using assms Some
    by (auto simp: with_score_def put_def related_def delete_layer_update)
qed

lemma vector_hits_frame:
  assumes "vector_hits m q rs h = (es, h')"
      and "\<forall>a \<in> set (refs (map snd (v_entries m))). a < next_free h"
  shows "unchanged (set (refs (map snd (v_entries m)))) h h' \<and>
         (\<forall>a \<in> set (refs es). a < next_free h') \<and>
         set (refs es) \<subseteq> set (refs (map snd (v_entries m))) \<union> {a. next_free h \<le> a}"
  using assms
proof (induction rs arbitrary: h es h')
  case Nil
  then show ?case by (simp add: unchanged_refl refs_def)
next
  case (Cons r rs)
  let ?X = "set (refs (map snd (v_entries m)))"
  show ?case
  proof (cases "selects m q r h")
    case None
    with Cons.prems(1) have "vector_hits m q rs h = (es, h')"
      by (simp add: vector_hits_Cons del: vector_hits.simps)
    from Cons.IH[OF this Cons.prems(2)] show ?thesis .
  next
    case (Some entry)
    obtain e1 h1 where w: "with_score entry (Score r) h = (e1, h1)" by force
    obtain rest h2 where v: "vector_hits m q rs h1 = (rest, h2)" by force
    from Cons.prems(1) Some w v have es: "es = e1 # rest" and h': "h' = h2"
      by (simp_all add: vector_hits_Cons del: vector_hits.simps)
    have st: "entry \<in> set (map snd (v_entries m))"
      using selects_stored[OF Some] .
    have pe: "\<forall>a. Metadata entry = Some a \<longrightarrow> a < next_free h \<and> a \<in> ?X"
      using st Cons.prems(2) by (blast intro: refs_memI)
    from with_score_frame[OF w pe] obtain a where
      u1: "unchanged ?X h h1" and ma: "Metadata e1 = Some a" and a1: "a < next_free h1" and
      oa: "Metadata entry = Some a \<or> next_free h \<le> a"
      by blast
    have p1: "\<forall>a \<in> ?X. a < next_free h1"
      using Cons.prems(2) unchanged_next[OF u1] by auto
    from Cons.IH[OF v p1] have
      u2: "unchanged ?X h1 h2" and a2: "\<forall>a \<in> set (refs rest). a < next_free h2" and
      s2: "set (refs rest) \<subseteq> ?X \<union> {a. next_free h1 \<le> a}"
      by blast+
    have u: "unchanged ?X h h2"
      using unchanged_trans[OF u1 u2] by simp
    have al: "\<forall>a \<in> set (refs es). a < next_free h'"
      using a2 a1 ma unchanged_next[OF u2] by (auto simp: es h' refs_Cons)
    have ax: "a \<in> ?X \<or> next_free h \<le> a"
      using oa st by (blast intro: refs_memI)
    have sub: "set (refs es) \<subseteq> ?X \<union> {a. next_free h \<le> a}"
    proof
      fix x assume "x \<in> set (refs es)"
      then consider "x = a" | "x \<in> set (refs rest)"
        by (auto simp: es ma refs_Cons)
      then show "x \<in> ?X \<union> {a. next_free h \<le> a}"
      proof cases
        case 1
        then show ?thesis using ax by auto
      next
        case 2
        with s2 have "x \<in> ?X \<or> next_free h1 \<le> x" by auto
        then show ?thesis using unchanged_next[OF u1] by auto
      qed
    qed
    show ?thesis using u al sub by (simp add: h')
  qed
qed

lemma related_sym_cells:
  "related n h h' \<Longrightarrow> a < n \<Longrightarrow>
     AList.delete ''_layer'' (cells h' a) = AList.delete ''_layer'' (cells h a)"
  by (simp add: related_def)

lemma vector_hits_sim:
  assumes "related n ha hb"
      and "\<forall>a \<in> set (refs (map snd (v_entries m))). a < n"
      and "''_layer'' \<notin> fst ` set (q_Metadata q)"
      and "vector_hits m q rs ha = (ea, ha')" and "vector_hits m q rs hb = (eb, hb')"
  shows "related n ha' hb' \<and> map (sv ha') ea = map (sv hb') eb"
  using assms(1,4,5)
proof (induction rs arbitrary: ha hb ea eb ha' hb')
  case Nil
  then show ?case by simp
next
  case (Cons r rs)
  let ?X = "set (refs (map snd (v_entries m)))"
  have c: "\<forall>a \<in> ?X. AList.delete ''_layer'' (cells hb a) = AList.delete ''_layer'' (cells ha a)"
    using Cons.prems(1) assms(2) by (simp add: related_def)
  have sel: "selects m q r hb = selects m q r ha"
    by (rule selects_cong[OF assms(3) c])
  show ?case
  proof (cases "selects m q r ha")
    case None
    with Cons.prems sel have "vector_hits m q rs ha = (ea, ha')" "vector_hits m q rs hb = (eb, hb')"
      by (simp_all add: vector_hits_Cons del: vector_hits.simps)
    from Cons.IH[OF Cons.prems(1) this] show ?thesis .
  next
    case (Some entry)
    obtain e1 ha1 where wa: "with_score entry (Score r) ha = (e1, ha1)" by force
    obtain e2 hb1 where wb: "with_score entry (Score r) hb = (e2, hb1)" by force
    obtain ra ha2 where va: "vector_hits m q rs ha1 = (ra, ha2)" by force
    obtain rb hb2 where vb: "vector_hits m q rs hb1 = (rb, hb2)" by force
    from Cons.prems(2) Some wa va have ea: "ea = e1 # ra" and ha': "ha' = ha2"
      by (simp_all add: vector_hits_Cons del: vector_hits.simps)
    from Cons.prems(3) Some sel wb vb have eb: "eb = e2 # rb" and hb': "hb' = hb2"
      by (simp_all add: vector_hits_Cons del: vector_hits.simps)
    have st: "entry \<in> set (map snd (v_entries m))"
      using selects_stored[OF Some] .
    have pe: "\<forall>a. Metadata entry = Some a \<longrightarrow> a < n"
      using st assms(2) by (blast intro: refs_memI)
    from with_score_sim[OF Cons.prems(1) pe wa wb] obtain a b where
      r1: "related n ha1 hb1" and same: "e1\<lparr>Metadata := None\<rparr> = e2\<lparr>Metadata := None\<rparr>" and
      ma: "Metadata e1 = Some a" and mb: "Metadata e2 = Some b" and
      a1: "a < next_free ha1" and b1: "b < next_free hb1" and
      ab: "(a = b \<and> a < n) \<or>
           (n \<le> a \<and> n \<le> b \<and>
            AList.delete ''_layer'' (cells ha1 a) = AList.delete ''_layer'' (cells hb1 b))"
      by blast
    from Cons.IH[OF r1 va vb] have
      r2: "related n ha2 hb2" and tl: "map (sv ha2) ra = map (sv hb2) rb"
      by blast+
    have xa: "\<forall>a \<in> ?X. a < next_free ha1" and xb: "\<forall>a \<in> ?X. a < next_free hb1"
      using assms(2) r1 by (auto simp: related_def)
    have fa: "unchanged ?X ha1 ha2"
      using vector_hits_frame[OF va xa] by blast
    have fb: "unchanged ?X hb1 hb2"
      using vector_hits_frame[OF vb xb] by blast
    have hd: "AList.delete ''_layer'' (cells ha2 a) = AList.delete ''_layer'' (cells hb2 b)"
      using ab
    proof
      assume "a = b \<and> a < n"
      then show ?thesis using r2 by (simp add: related_def)
    next
      assume f: "n \<le> a \<and> n \<le> b \<and>
            AList.delete ''_layer'' (cells ha1 a) = AList.delete ''_layer'' (cells hb1 b)"
      then have "a \<notin> ?X" "b \<notin> ?X" using assms(2) by auto
      then have "AList.delete ''_layer'' (cells ha2 a) = AList.delete ''_layer'' (cells ha1 a)"
                "AList.delete ''_layer'' (cells hb2 b) = AList.delete ''_layer'' (cells hb1 b)"
        using fa fb a1 b1 by (simp_all add: unchanged_def)
      then show ?thesis using f by simp
    qed
    have "sv ha2 e1 = sv hb2 e2"
      using same ma mb hd by (simp add: sv_eq meta_of_def)
    then show ?thesis using r2 tl by (simp add: ea eb ha' hb')
  qed
qed

lemma sv_related:
  assumes "related n ha hb" and "\<forall>a \<in> set (refs es). a < n"
  shows "map (sv ha) es = map (sv hb) es"
proof (rule map_cong[OF refl])
  fix e assume e: "e \<in> set es"
  show "sv ha e = sv hb e"
  proof (cases "Metadata e")
    case None
    then show ?thesis by (simp add: sv_eq meta_of_def)
  next
    case (Some a)
    with e assms(2) have "a < n" by (blast intro: refs_memI)
    with assms(1) show ?thesis using Some by (simp add: sv_eq meta_of_def related_def)
  qed
qed

lemma visited_stored:
  "returns_elements rt \<Longrightarrow>
     set (map snd (range_entries rt (v_entries m))) \<subseteq> set (map snd (v_entries m))"
  by (auto simp: returns_elements_def)

lemma page_subset:
  "(if Offset q > int (length es) then Inr []
    else slice es (Offset q)
           (if Limit q > 0 \<and> add64 (Offset q) (Limit q) < int (length es)
            then add64 (Offset q) (Limit q) else int (length es))) = Inr ys
   \<Longrightarrow> set ys \<subseteq> set es"
  by (auto split: if_splits dest!: slice_subset)

lemma plain_search_subset:
  assumes "returns_elements rt"
  shows "set (hits_of (plain_search rt m q h)) \<subseteq> set (map snd (v_entries m))"
proof (cases "plain_search rt m q h")
  case (Inl x)
  then show ?thesis by (simp add: hits_of_def)
next
  case (Inr ys)
  let ?fs = "filter (\<lambda>entry. matchQuery entry q h) (map snd (range_entries rt (v_entries m)))"
  let ?ss = "sort_Slice rt (\<lambda>a b. if OrderDesc q then CreatedAt a > CreatedAt b
                         else CreatedAt a < CreatedAt b) ?fs"
  have "set ys \<subseteq> set ?ss"
    using Inr unfolding plain_search_def Let_def by (rule page_subset)
  also have "\<dots> \<subseteq> set ?fs"
    using assms unfolding returns_elements_def by blast
  also have "\<dots> \<subseteq> set (map snd (v_entries m))"
    using visited_stored[OF assms, of m] by auto
  finally show ?thesis using Inr by (simp add: hits_of_def)
qed

lemma plain_search_cong:
  assumes "returns_elements rt" and "''_layer'' \<notin> fst ` set (q_Metadata q)"
      and "\<forall>a \<in> set (refs (map snd (v_entries m))).
             AList.delete ''_layer'' (cells h' a) = AList.delete ''_layer'' (cells h a)"
  shows "plain_search rt m q h' = plain_search rt m q h"
proof -
  have "set (refs (map snd (range_entries rt (v_entries m)))) \<subseteq> set (refs (map snd (v_entries m)))"
    by (rule refs_mono[OF visited_stored[OF assms(1)]])
  then have "\<forall>a \<in> set (refs (map snd (range_entries rt (v_entries m)))).
             AList.delete ''_layer'' (cells h' a) = AList.delete ''_layer'' (cells h a)"
    using assms(3) by blast
  from filter_match_cong[OF assms(2) this] show ?thesis
    by (simp add: plain_search_def)
qed

lemma Vector_Search_frame:
  assumes "Vector_Search rt m q h = (r, h')" and "returns_elements rt"
      and "\<forall>a \<in> set (refs (map snd (v_entries m))). a < next_free h"
  shows "unchanged (set (refs (map snd (v_entries m)))) h h' \<and>
         (\<forall>a \<in> set (refs (hits_of r)). a < next_free h')"
proof (cases "query_embedding m q")
  case (Inl e)
  then show ?thesis
    using assms(1) by (auto simp: Vector_Search_def Let_def unchanged_refl hits_of_def refs_def)
next
  case (Inr emb)
  show ?thesis
  proof (cases "emb = []")
    case True
    then have r: "r = plain_search rt m q h" and h': "h' = h"
      using assms(1) Inr by (auto simp: Vector_Search_def Let_def)
    have "set (refs (hits_of r)) \<subseteq> set (refs (map snd (v_entries m)))"
      unfolding r by (rule refs_mono[OF plain_search_subset[OF assms(2)]])
    then show ?thesis using assms(3) by (auto simp: h' unchanged_refl)
  next
    case False
    let ?k = "if Limit q \<le> 0 then DefaultTopK (v_config m) else Limit q"
    show ?thesis
    proof (cases "store_Search m emb ?k")
      case (Inl e)
      then show ?thesis
        using assms(1) Inr False
        by (auto simp: Vector_Search_def Let_def unchanged_refl hits_of_def refs_def)
    next
      case res: (Inr results)
      obtain es h2 where v: "vector_hits m q results h = (es, h2)" by force
      then have r: "r = Inr es" and h': "h' = h2"
        using assms(1) Inr False res by (simp_all add: Vector_Search_def Let_def)
      from vector_hits_frame[OF v assms(3)] show ?thesis
        by (simp add: r h' hits_of_def)
    qed
  qed
qed

lemma Vector_Search_sim:
  assumes "related n ha hb"
      and "\<forall>a \<in> set (refs (map snd (v_entries m))). a < n"
      and "''_layer'' \<notin> fst ` set (q_Metadata q)"
      and "returns_elements rt"
      and "Vector_Search rt m q ha = (ra, ha')" and "Vector_Search rt m q hb = (rb, hb')"
  shows "map (sv ha') (hits_of ra) = map (sv hb') (hits_of rb) \<and> panicked ra = panicked rb"
proof (cases "query_embedding m q")
  case (Inl e)
  then show ?thesis
    using assms(5,6) by (auto simp: Vector_Search_def Let_def hits_of_def)
next
  case (Inr emb)
  show ?thesis
  proof (cases "emb = []")
    case True
    then have a: "ra = plain_search rt m q ha" "ha' = ha"
      and b: "rb = plain_search rt m q hb" "hb' = hb"
      using assms(5,6) Inr by (auto simp: Vector_Search_def Let_def)
    have c: "\<forall>a \<in> set (refs (map snd (v_entries m))).
               AList.delete ''_layer'' (cells hb a) = AList.delete ''_layer'' (cells ha a)"
      using assms(1,2) by (simp add: related_def)
    have eq: "rb = ra"
      unfolding a b by (rule plain_search_cong[OF assms(4,3) c])
    have "set (refs (hits_of ra)) \<subseteq> set (refs (map snd (v_entries m)))"
      unfolding a by (rule refs_mono[OF plain_search_subset[OF assms(4)]])
    then have "\<forall>a \<in> set (refs (hits_of ra)). a < n"
      using assms(2) by blast
    from sv_related[OF assms(1) this] show ?thesis
      by (simp add: eq a b)
  next
    case False
    let ?k = "if Limit q \<le> 0 then DefaultTopK (v_config m) else Limit q"
    show ?thesis
    proof (cases "store_Search m emb ?k")
      case (Inl e)
      then show ?thesis
        using assms(5,6) Inr False by (auto simp: Vector_Search_def Let_def hits_of_def)
    next
      case res: (Inr results)
      obtain ea h2 where va: "vector_hits m q results ha = (ea, h2)" by force
      obtain eb h3 where vb: "vector_hits m q results hb = (eb, h3)" by force
      have a: "ra = Inr ea" "ha' = h2"
        using assms(5) Inr False res va by (simp_all add: Vector_Search_def Let_def)
      have b: "rb = Inr eb" "hb' = h3"
        using assms(6) Inr False res vb by (simp_all add: Vector_Search_def Let_def)
      from vector_hits_sim[OF assms(1,2,3) va vb] show ?thesis
        by (simp add: a b hits_of_def panicked_def)
    qed
  qed
qed

lemma layers_distinct:
  "LayerWorking \<noteq> LayerShortTerm" "LayerWorking \<noteq> LayerLongTerm"
  "LayerShortTerm \<noteq> LayerLongTerm"
  by (simp_all add: LayerWorking_def LayerShortTerm_def LayerLongTerm_def)

lemma SearchLayer_working:
  "ML_SearchLayer rt m LayerWorking query h = (Search (working m) query h, h)"
  by (simp add: ML_SearchLayer_def)

lemma SearchLayer_short:
  "ML_SearchLayer rt m LayerShortTerm query h =
     (case shortTerm m of
        None \<Rightarrow> (Inl (Err (''layer '' @ LayerShortTerm @ '' not available'')), h)
      | Some st \<Rightarrow> (Summary_Search st query h, h))"
  using layers_distinct by (simp add: ML_SearchLayer_def split: option.splits)

lemma SearchLayer_long:
  "ML_SearchLayer rt m LayerLongTerm query h =
     (case longTerm m of
        None \<Rightarrow> (Inl (Err (''layer '' @ LayerLongTerm @ '' not available'')), h)
      | Some lt \<Rightarrow> Vector_Search rt lt query h)"
  using layers_distinct by (simp add: ML_SearchLayer_def split: option.splits)

lemma apply_limit_map:
  "map f (apply_limit q xs) = apply_limit q (map f xs)"
  by (simp add: apply_limit_def take_map)

lemma result_view_sv: "result_view (r, h) = map (sv h) (hits_of r)"
  by (simp add: result_view_def sv_def)

text \<open>
  C9 (as amended). The aggregated search and the searches of the three tiers are started
  from the same state, the memory \<open>m\<close> and the store \<open>h\<close>, with the same runtime, and the
  result of each is read in the store that the call leaves. Let every map of a stored entry
  be a cell of the store, let no entry of the long-term tier share its map with an entry of
  the working or of the short-term tier, let the metadata filter of the query not mention
  \<^verbatim>\<open>_layer\<close>, let \<^verbatim>\<open>range\<close> and \<^verbatim>\<open>sort.Slice\<close> return elements of what they are given, and
  let no consulted tier panic. Then the aggregated search returns no error and its result,
  the \<^verbatim>\<open>_layer\<close> tag ignored, is the concatenation of the per-tier results of
  \<^verbatim>\<open>SearchLayer\<close> (working, short-term, long-term; a tier that is absent or returns an
  error contributes nothing; the long-term tier only when the query has text or an
  embedding), cut to the first \<open>limit\<close> entries when \<open>limit > 0\<close>.
\<close>

theorem multilayer_search_is_limited_union:
  assumes nl: "''_layer'' \<notin> fst ` set (q_Metadata query)"
      and al: "allocated m h"
      and ap: "long_term_apart m"
      and re: "returns_elements rt"
      and pw: "\<not> panicked (fst (ML_SearchLayer rt m LayerWorking query h))"
      and ps: "\<not> panicked (fst (ML_SearchLayer rt m LayerShortTerm query h))"
      and pl: "Query query \<noteq> [] \<or> q_Embedding query \<noteq> [] \<Longrightarrow>
                 \<not> panicked (fst (ML_SearchLayer rt m LayerLongTerm query h))"
  shows "\<exists>out h'. ML_Search rt m query h = (Inr out, h') \<and>
           result_view (ML_Search rt m query h) =
             apply_limit query
               (result_view (ML_SearchLayer rt m LayerWorking query h) @
                result_view (ML_SearchLayer rt m LayerShortTerm query h) @
                (if Query query \<noteq> [] \<or> q_Embedding query \<noteq> []
                 then result_view (ML_SearchLayer rt m LayerLongTerm query h) else []))"
proof -
  let ?N = "next_free h"
  let ?Wr = "set (working_refs m)"
  let ?Sr = "set (short_refs m)"
  let ?Lr = "set (long_refs m)"
  let ?consult = "Query query \<noteq> [] \<or> q_Embedding query \<noteq> []"
  have aW: "\<forall>a \<in> ?Wr. a < ?N" and aS: "\<forall>a \<in> ?Sr. a < ?N" and aL: "\<forall>a \<in> ?Lr. a < ?N"
    using al by (auto simp: allocated_def list_all_iff)
  have dj: "\<forall>a \<in> ?Lr. a \<notin> ?Wr \<and> a \<notin> ?Sr"
    using ap by (auto simp: long_term_apart_def list_all_iff)

  let ?rW = "Search (working m) query h"
  obtain w h1 where lw: "layer_hits LayerWorking ?rW h = (w, h1)" by force
  have nW: "\<not> panicked ?rW"
    using pw by (simp add: SearchLayer_working)
  have rW: "set (refs (hits_of ?rW)) \<subseteq> ?Wr"
    unfolding working_refs_def by (rule refs_mono[OF Search_subset])
  have "\<forall>a \<in> set (refs (hits_of ?rW)). a < next_free h"
    using rW aW by blast
  from layer_hits_step[OF lw nW this] obtain ws where
    w: "w = Inr ws" and u01: "unchanged {} h h1" and
    vW: "map (sv h1) ws = map (sv h) (hits_of ?rW)" and
    bW: "\<forall>a \<in> set (refs ws). a < next_free h1" and
    sW: "set (refs ws) \<subseteq> set (refs (hits_of ?rW)) \<union> {a. ?N \<le> a}"
    by blast
  have n01: "?N \<le> next_free h1"
    by (rule unchanged_next[OF u01])

  define sstage where "sstage =
     (case shortTerm m of
        None \<Rightarrow> (Inr [], h1)
      | Some st \<Rightarrow> layer_hits LayerShortTerm (Summary_Search st query h1) h1)"
  obtain s h2 where ls: "sstage = (s, h2)" by force
  have S: "\<exists>ss. s = Inr ss \<and> unchanged {} h1 h2 \<and>
             map (sv h2) ss = result_view (ML_SearchLayer rt m LayerShortTerm query h) \<and>
             (\<forall>a \<in> set (refs ss). a < next_free h2) \<and>
             set (refs ss) \<subseteq> ?Sr \<union> {a. ?N \<le> a}"
  proof (cases "shortTerm m")
    case None
    then show ?thesis
      using ls
      by (auto simp: sstage_def unchanged_refl SearchLayer_short result_view_sv hits_of_def
            refs_def)
  next
    case (Some st)
    let ?r = "Search (buffer st) query h"
    have Sr: "?Sr = set (refs (entries (buffer st)))"
      using Some by (simp add: short_refs_def)
    have c: "\<forall>a \<in> set (refs (entries (buffer st))).
               AList.delete ''_layer'' (cells h1 a) = AList.delete ''_layer'' (cells h a)"
      using u01 aS Sr by (auto simp: unchanged_def)
    have same: "Summary_Search st query h1 = ?r"
      by (simp add: Summary_Search_def Search_cong[OF nl c])
    have lh: "layer_hits LayerShortTerm ?r h1 = (s, h2)"
      using ls Some same by (simp add: sstage_def)
    have np: "\<not> panicked ?r"
      using ps Some by (simp add: SearchLayer_short Summary_Search_def)
    have sub: "set (refs (hits_of ?r)) \<subseteq> ?Sr"
      unfolding Sr by (rule refs_mono[OF Search_subset])
    have lt0: "\<forall>a \<in> set (refs (hits_of ?r)). a < ?N \<and> a \<notin> {}"
      using sub aS by blast
    have lt1: "\<forall>a \<in> set (refs (hits_of ?r)). a < next_free h1"
      using lt0 n01 by fastforce
    from layer_hits_step[OF lh np lt1] obtain ss where
      ss: "s = Inr ss" "unchanged {} h1 h2" "map (sv h2) ss = map (sv h1) (hits_of ?r)"
          "\<forall>a \<in> set (refs ss). a < next_free h2"
          "set (refs ss) \<subseteq> set (refs (hits_of ?r)) \<union> {a. next_free h1 \<le> a}"
      by blast
    have v: "map (sv h1) (hits_of ?r) = map (sv h) (hits_of ?r)"
      by (rule sv_stable[OF u01 lt0])
    have rv: "result_view (ML_SearchLayer rt m LayerShortTerm query h) = map (sv h) (hits_of ?r)"
      using Some by (simp add: SearchLayer_short Summary_Search_def result_view_sv)
    have "set (refs ss) \<subseteq> ?Sr \<union> {a. ?N \<le> a}"
      using ss(5) sub n01 by auto
    then show ?thesis
      using ss(1,2,3,4) v rv by auto
  qed
  then obtain ss where
    s: "s = Inr ss" and u12: "unchanged {} h1 h2" and
    vS: "map (sv h2) ss = result_view (ML_SearchLayer rt m LayerShortTerm query h)" and
    bS: "\<forall>a \<in> set (refs ss). a < next_free h2" and
    sS: "set (refs ss) \<subseteq> ?Sr \<union> {a. ?N \<le> a}"
    by blast
  have u02: "unchanged {} h h2"
    using unchanged_trans[OF u01 u12] by simp

  define lstage where "lstage =
     (case longTerm m of
        None \<Rightarrow> (Inr [], h2)
      | Some lt \<Rightarrow>
         (if ?consult
          then (case Vector_Search rt lt query h2 of (r, h3) \<Rightarrow> layer_hits LayerLongTerm r h3)
          else (Inr [], h2)))"
  obtain l h4 where ll: "lstage = (l, h4)" by force
  have L: "\<exists>ls. l = Inr ls \<and> unchanged ?Lr h2 h4 \<and>
             map (sv h4) ls =
               (if ?consult then result_view (ML_SearchLayer rt m LayerLongTerm query h) else [])"
  proof (cases "longTerm m")
    case None
    then show ?thesis
      using ll
      by (auto simp: lstage_def unchanged_refl SearchLayer_long result_view_sv hits_of_def)
  next
    case (Some lt)
    show ?thesis
    proof (cases ?consult)
      case False
      then show ?thesis
        using ll Some by (auto simp: lstage_def unchanged_refl)
    next
      case True
      obtain r2 h3 where v2: "Vector_Search rt lt query h2 = (r2, h3)" by force
      obtain r0 hL where v0: "Vector_Search rt lt query h = (r0, hL)" by force
      have Lr: "?Lr = set (refs (map snd (v_entries lt)))"
        using Some by (simp add: long_refs_def)
      have aL': "\<forall>a \<in> set (refs (map snd (v_entries lt))). a < ?N"
        using aL Lr by simp
      have aL2: "\<forall>a \<in> set (refs (map snd (v_entries lt))). a < next_free h2"
        using aL' unchanged_next[OF u02] by fastforce
      have rel: "related ?N h2 h"
        using u02 by (auto simp: related_def unchanged_def)
      from Vector_Search_sim[OF rel aL' nl re v2 v0] have
        sim: "map (sv h3) (hits_of r2) = map (sv hL) (hits_of r0)" and
        pan: "panicked r2 = panicked r0"
        by blast+
      have np0: "\<not> panicked r0"
        using pl True Some v0 by (simp add: SearchLayer_long)
      then have np2: "\<not> panicked r2" using pan by simp
      from Vector_Search_frame[OF v2 re aL2] have
        u23: "unchanged ?Lr h2 h3" and b3: "\<forall>a \<in> set (refs (hits_of r2)). a < next_free h3"
        unfolding Lr by blast+
      have lh: "layer_hits LayerLongTerm r2 h3 = (l, h4)"
        using ll Some True v2 by (simp add: lstage_def)
      from layer_hits_step[OF lh np2 b3] obtain ls where
        ls: "l = Inr ls" "unchanged {} h3 h4" "map (sv h4) ls = map (sv h3) (hits_of r2)"
        by blast
      have u24: "unchanged ?Lr h2 h4"
        using unchanged_trans[OF u23 ls(2)] by simp
      have rv: "result_view (ML_SearchLayer rt m LayerLongTerm query h) = map (sv hL) (hits_of r0)"
        using Some v0 by (simp add: SearchLayer_long result_view_sv)
      show ?thesis
        using ls(1,3) u24 sim rv True by auto
    qed
  qed
  then obtain ls where
    l: "l = Inr ls" and u24: "unchanged ?Lr h2 h4" and
    vL: "map (sv h4) ls =
           (if ?consult then result_view (ML_SearchLayer rt m LayerLongTerm query h) else [])"
    by blast

  have M: "ML_Search rt m query h = (Inr (apply_limit query (ws @ ss @ ls)), h4)"
    using lw w ls[unfolded sstage_def] s ll[unfolded lstage_def] l
    by (simp add: ML_Search_def)
  have u14: "unchanged ?Lr h1 h4"
    using unchanged_trans[OF u12 u24] by simp
  have fW: "\<forall>a \<in> set (refs ws). a < next_free h1 \<and> a \<notin> ?Lr"
  proof
    fix a assume a: "a \<in> set (refs ws)"
    with sW rW have "a \<in> ?Wr \<or> ?N \<le> a" by auto
    then have "a \<notin> ?Lr" using dj aL by fastforce
    then show "a < next_free h1 \<and> a \<notin> ?Lr" using bW a by simp
  qed
  have fS: "\<forall>a \<in> set (refs ss). a < next_free h2 \<and> a \<notin> ?Lr"
  proof
    fix a assume a: "a \<in> set (refs ss)"
    with sS have "a \<in> ?Sr \<or> ?N \<le> a" by auto
    then have "a \<notin> ?Lr" using dj aL by fastforce
    then show "a < next_free h2 \<and> a \<notin> ?Lr" using bS a by simp
  qed
  have W4: "map (sv h4) ws = result_view (ML_SearchLayer rt m LayerWorking query h)"
    using sv_stable[OF u14 fW] vW by (simp add: SearchLayer_working result_view_sv)
  have S4: "map (sv h4) ss = result_view (ML_SearchLayer rt m LayerShortTerm query h)"
    using sv_stable[OF u24 fS] vS by simp
  have "result_view (ML_Search rt m query h) = map (sv h4) (apply_limit query (ws @ ss @ ls))"
    by (simp add: M result_view_sv hits_of_def)
  also have "\<dots> = apply_limit query (map (sv h4) ws @ map (sv h4) ss @ map (sv h4) ls)"
    by (simp add: apply_limit_map)
  finally show ?thesis
    using M W4 S4 vL by simp
qed

lemma insert_back_set: "set (insert_back lt x ys) = insert x (set ys)"
  by (induction ys) auto

lemma insertion_set:
  "set (foldl (\<lambda>acc x. insert_back lt x acc) acc xs) = set acc \<union> set xs"
  by (induction xs arbitrary: acc) (auto simp: insert_back_set)

lemma ex_rt_returns_elements: "returns_elements ex_rt"
  by (simp add: returns_elements_def ex_rt_def insertionSort_def insertion_set)

lemmas search_eval =
  ML_Search_def ML_SearchLayer_def layer_hits_def hits_of_def panicked_def result_view_def
  seen_def strip_layer_def meta_of_def Search_def Summary_Search_def Vector_Search_def
  matchQuery_def paginate_def slice_def add64_def query_embedding_def apply_limit_def
  addLayerMeta_def make_map_def put_def LayerWorking_def LayerShortTerm_def LayerLongTerm_def
  ex_summary_def ex_vector_def ex_entry_def ex_store_def

theorem multilayer_search_is_limited_union_witness:
  "''_layer'' \<notin> fst ` set (q_Metadata (ex_query\<lparr>Limit := 5\<rparr>)) \<and>
   allocated ex_multi_maps ex_store \<and> long_term_apart ex_multi_maps \<and>
   returns_elements ex_rt \<and>
   \<not> panicked (fst (ML_SearchLayer ex_rt ex_multi_maps LayerWorking (ex_query\<lparr>Limit := 5\<rparr>) ex_store)) \<and>
   \<not> panicked (fst (ML_SearchLayer ex_rt ex_multi_maps LayerShortTerm (ex_query\<lparr>Limit := 5\<rparr>) ex_store)) \<and>
   \<not> panicked (fst (ML_SearchLayer ex_rt ex_multi_maps LayerLongTerm (ex_query\<lparr>Limit := 5\<rparr>) ex_store)) \<and>
   result_view (ML_Search ex_rt ex_multi_maps (ex_query\<lparr>Limit := 5\<rparr>) ex_store) =
     [(ex_entry ''a'' 1, [(''topic'', AStr ''go'')]), (ex_entry ''b'' 2, []),
      (ex_entry ''c'' 3, [(''topic'', AStr ''go'')]), (ex_entry ''d'' 4, []),
      (ex_entry ''e'' 5, [(''topic'', AStr ''go''), (''_score'', AFloat 1)])]"
  using multilayer_search_is_limited_union
          [of "ex_query\<lparr>Limit := 5\<rparr>" ex_multi_maps ex_store ex_rt]
        ex_rt_returns_elements
  by (simp add: search_eval ex_multi_maps_def ex_query_def allocated_def long_term_apart_def
        working_refs_def short_refs_def long_refs_def refs_def)

text \<open>
  C9 as it was stated fails in three ways. With \<open>limit = 2\<close> the tiers return two entries
  each and the aggregated search returns the first two only. With one map shared by an
  entry of the working tier and an entry of the long-term tier, and no limit, the search of
  the long-term tier writes the score into the shared map: the working hit of the aggregated
  search carries a \<^verbatim>\<open>_score\<close>, the hit of \<^verbatim>\<open>SearchLayer\<close> on the working tier does not.
  And when the aggregated search visits the map of the long-term tier in another order than
  \<^verbatim>\<open>SearchLayer\<close> does, two entries created at the same instant come out in another order
  from the search that sorts by creation time.
\<close>

theorem multilayer_search_counterexample:
  "Limit ex_query = 2 \<and>
   result_view (ML_Search ex_rt ex_multi_maps ex_query ex_store) =
     [(ex_entry ''a'' 1, [(''topic'', AStr ''go'')]), (ex_entry ''b'' 2, [])] \<and>
   map (\<lambda>v. ID (fst v))
     (result_view (ML_SearchLayer ex_rt ex_multi_maps LayerWorking ex_query ex_store) @
      result_view (ML_SearchLayer ex_rt ex_multi_maps LayerShortTerm ex_query ex_store) @
      result_view (ML_SearchLayer ex_rt ex_multi_maps LayerLongTerm ex_query ex_store)) =
     [''a'', ''b'', ''c'', ''d'', ''e'', ''f''] \<and>
   Limit (ex_query\<lparr>Limit := 0\<rparr>) = 0 \<and>
   ''_layer'' \<notin> fst ` set (q_Metadata (ex_query\<lparr>Limit := 0\<rparr>)) \<and>
   result_view (ML_Search ex_rt ex_multi_shared (ex_query\<lparr>Limit := 0\<rparr>) ex_store) =
     [(ex_entry ''a'' 1, [(''topic'', AStr ''go''), (''_score'', AFloat 1)]),
      (ex_entry ''e'' 5, [(''topic'', AStr ''go''), (''_score'', AFloat 1)])] \<and>
   result_view (ML_SearchLayer ex_rt ex_multi_shared LayerWorking (ex_query\<lparr>Limit := 0\<rparr>) ex_store) =
     [(ex_entry ''a'' 1, [(''topic'', AStr ''go'')])] \<and>
   result_view (ML_SearchLayer ex_rt ex_multi_shared LayerShortTerm (ex_query\<lparr>Limit := 0\<rparr>) ex_store) =
     [] \<and>
   result_view (ML_SearchLayer ex_rt ex_multi_shared LayerLongTerm (ex_query\<lparr>Limit := 0\<rparr>) ex_store) =
     [(ex_entry ''e'' 5, [(''topic'', AStr ''go''), (''_score'', AFloat 1)])] \<and>
   result_view (ML_Search ex_rt_rev ex_multi_plain (ex_query\<lparr>Limit := 0\<rparr>) ex_store) =
     [(ex_entry ''f'' 5, []), (ex_entry ''e'' 5, [])] \<and>
   result_view (ML_SearchLayer ex_rt ex_multi_plain LayerWorking (ex_query\<lparr>Limit := 0\<rparr>) ex_store) @
   result_view (ML_SearchLayer ex_rt ex_multi_plain LayerShortTerm (ex_query\<lparr>Limit := 0\<rparr>) ex_store) @
   result_view (ML_SearchLayer ex_rt ex_multi_plain LayerLongTerm (ex_query\<lparr>Limit := 0\<rparr>) ex_store) =
     [(ex_entry ''e'' 5, []), (ex_entry ''f'' 5, [])]"
  by (simp add: search_eval ex_multi_maps_def ex_multi_shared_def ex_multi_plain_def
        ex_query_def ex_rt_def ex_rt_rev_def plain_search_def insertionSort_def)

section \<open>Selection in the base router\<close>

lemma strategies_distinct:
  "StrategyLeastCost \<noteq> StrategyRoundRobin" "StrategyLeastCost \<noteq> StrategyRandom"
  "StrategyLeastCost \<noteq> StrategyLeastLatency"
  by (simp_all add: StrategyLeastCost_def StrategyRoundRobin_def StrategyRandom_def
        StrategyLeastLatency_def)

lemma cost_router_simps:
  "providers cost_router = [(''a'', cost_provider_a), (''b'', cost_provider_b)]"
  "providerList cost_router = [''a'', ''b'']"
  "strategy cost_router = StrategyLeastCost"
  "healthCheck cost_router = False"
  "modelMap cost_router = [''m1'' \<mapsto> ''a'', ''m2'' \<mapsto> ''a'', ''m3'' \<mapsto> ''b'']"
  by (simp_all add: cost_router_def Register_def New_def cost_provider_a_def
        cost_provider_b_def working_provider_def ex_model_def)

text \<open>
  C1. The least-cost strategy is claimed to select the provider of the model with the least
  \<open>input_cost + output_cost\<close>. Registered in this order, provider \<open>a\<close> offers models of cost
  \<open>2\<close> and \<open>10\<close> and provider \<open>b\<close> a model of cost \<open>5\<close>; with an empty request model the
  selection returns \<open>b\<close>. While the first provider is visited the loop overwrites the
  minimum with every model, so the cost it carries on is that of the provider's last model.
\<close>

theorem least_cost_selects_dearer_provider:
  "selectProvider ex_go_rt cost_router ex_request = (Inr (Some cost_provider_b), cost_router) \<and>
   p_Models cost_provider_a = [ex_model ''m1'' 1 1 [], ex_model ''m2'' 5 5 []] \<and>
   p_Models cost_provider_b = [ex_model ''m3'' 2 3 []] \<and>
   InputCost (ex_model ''m1'' 1 1 []) + OutputCost (ex_model ''m1'' 1 1 []) = 2 \<and>
   InputCost (ex_model ''m3'' 2 3 []) + OutputCost (ex_model ''m3'' 2 3 []) = 5"
  using strategies_distinct
  by (simp add: selectProvider_def model_match_def ex_request_def cost_router_simps
        getHealthyProviders_def leastCostSelect_def cost_provider_a_def cost_provider_b_def
        working_provider_def ex_model_def)


lemma foldl_apply_option_registry:
  "providers (foldl apply_option r opts) = providers r \<and>
   providerList (foldl apply_option r opts) = providerList r"
proof (induction opts arbitrary: r)
  case Nil
  show ?case by simp
next
  case (Cons opt opts)
  show ?case using Cons.IH[of "apply_option r opt"] by (cases opt) simp_all
qed

lemma roundRobinSelect_frame:
  "providers (snd (roundRobinSelect r av)) = providers r \<and>
   providerList (snd (roundRobinSelect r av)) = providerList r \<and>
   fallback (snd (roundRobinSelect r av)) = fallback r"
  by (simp add: roundRobinSelect_def Let_def split: sum.splits)

lemma selectProvider_frame:
  "providers (snd (selectProvider rt r req)) = providers r \<and>
   providerList (snd (selectProvider rt r req)) = providerList r \<and>
   fallback (snd (selectProvider rt r req)) = fallback r"
  using roundRobinSelect_frame[of r "getHealthyProviders r"]
  by (simp add: selectProvider_def Let_def split: option.splits)

lemma recordLatency_frame:
  "providers (recordLatency r n d) = providers r \<and>
   providerList (recordLatency r n d) = providerList r \<and>
   fallback (recordLatency r n d) = fallback r"
  by (simp add: recordLatency_def split: option.splits)

lemma keys_delete: "fst ` set (AList.delete k al) = fst ` set al - {k}"
  using delete_keys[of k al] by (metis set_map set_removeAll)

lemma reachable_registry:
  "reachable r \<Longrightarrow> fst ` set (providers r) \<subseteq> set (providerList r)"
proof (induction rule: reachable.induct)
  case (r_New opts)
  show ?case by (simp add: New_def foldl_apply_option_registry)
next
  case (r_Register r name provider)
  then show ?case by (auto simp: Register_def dom_update)
next
  case (r_Unregister r name)
  then show ?case by (auto simp: Unregister_def Let_def keys_delete)
next
  case (r_AddWithWeight r name weight provider)
  then show ?case by (auto simp: Register_def dom_update)
next
  case (r_select r rt req)
  then show ?case using selectProvider_frame[of rt r req] by simp
next
  case (r_recordLatency r name d)
  then show ?case using recordLatency_frame[of r name d] by simp
qed (simp_all add: SetHealthy_def)

text \<open>
  C2. In every state that a router can reach, under every strategy \<open>s\<close>: when the request
  names a model that the model map sends to a registered provider \<open>P\<close>, and \<open>P\<close> is marked
  healthy or health checking is off, the selection returns \<open>P\<close> and leaves the router as it
  was.
\<close>

theorem model_match_takes_precedence:
  assumes "reachable r"
      and "Model req \<noteq> []"
      and "modelMap r (Model req) = Some pn"
      and "map_of (providers r) pn = Some P"
      and "\<not> healthCheck r \<or> is_healthy r pn"
  shows "selectProvider rt (r\<lparr>strategy := s\<rparr>) req = (Inr (Some P), r\<lparr>strategy := s\<rparr>)"
proof -
  from assms(4) have "pn \<in> fst ` set (providers r)"
    by (metis domI dom_map_of_conv_image_fst)
  with reachable_registry[OF assms(1)] have ne: "providerList r \<noteq> []"
    by auto
  have mm: "model_match (r\<lparr>strategy := s\<rparr>) req = Some P"
    using assms(2-5) by (auto simp: model_match_def is_healthy_def)
  show ?thesis using ne mm by (simp add: selectProvider_def)
qed

lemma match_router_simps:
  "providers match_router = [(''a'', cost_provider_a)]"
  "healthCheck match_router = True"
  "healthy match_router = [''a'' \<mapsto> True]"
  "modelMap match_router = [''m1'' \<mapsto> ''a'', ''m2'' \<mapsto> ''a'']"
  by (simp_all add: match_router_def Register_def New_def cost_provider_a_def
        working_provider_def ex_model_def)

theorem model_match_takes_precedence_witness:
  "reachable match_router \<and> Model (ex_request\<lparr>Model := ''m1''\<rparr>) \<noteq> [] \<and>
   modelMap match_router (Model (ex_request\<lparr>Model := ''m1''\<rparr>)) = Some ''a'' \<and>
   map_of (providers match_router) ''a'' = Some cost_provider_a \<and>
   is_healthy match_router ''a'' \<and>
   selectProvider ex_go_rt (match_router\<lparr>strategy := StrategyRandom\<rparr>)
       (ex_request\<lparr>Model := ''m1''\<rparr>)
     = (Inr (Some cost_provider_a), match_router\<lparr>strategy := StrategyRandom\<rparr>)"
proof -
  have r: "reachable match_router"
    unfolding match_router_def by (intro reachable.intros)
  have h: "Model (ex_request\<lparr>Model := ''m1''\<rparr>) \<noteq> []"
    "modelMap match_router (Model (ex_request\<lparr>Model := ''m1''\<rparr>)) = Some ''a''"
    "map_of (providers match_router) ''a'' = Some cost_provider_a"
    "\<not> healthCheck match_router \<or> is_healthy match_router ''a''"
    by (simp_all add: match_router_simps is_healthy_def)
  from model_match_takes_precedence[OF r h, of ex_go_rt StrategyRandom] r h
  show ?thesis by (simp add: match_router_simps)
qed


section \<open>Retry on the fallback provider\<close>

text \<open>
  C5 (as amended). When the call on the selected provider \<open>P\<close> returns an error \<open>e\<close>,
  \<^verbatim>\<open>Complete\<close> and \<^verbatim>\<open>Stream\<close> make exactly one further call, on the provider registered
  under the fallback name, if and only if that name is not empty and is registered; its
  answer is returned whatever it is. Otherwise \<open>e\<close> is returned as it is. Whether the
  fallback is the provider that was selected plays no part.
\<close>

theorem fallback_retry_once:
  assumes "selectProvider rt r req = (Inr (Some P), r1)"
  shows "(p_Complete P w req = (Inl e, w1) \<longrightarrow>
            Complete rt elapsed r w req =
              (case fallback_provider r of
                 Some F \<Rightarrow> (fst (p_Complete F w1 req),
                            recordLatency r1 (getProviderName rt r1 P) elapsed,
                            snd (p_Complete F w1 req))
               | None \<Rightarrow> (Inl e, recordLatency r1 (getProviderName rt r1 P) elapsed, w1))) \<and>
         (p_Stream P w req = (Inl e, w1) \<longrightarrow>
            Stream rt r w req =
              (case fallback_provider r of
                 Some F \<Rightarrow> (fst (p_Stream F w1 req), r1, snd (p_Stream F w1 req))
               | None \<Rightarrow> (Inl e, r1, w1)))"
proof -
  have r1: "r1 = snd (selectProvider rt r req)" using assms by simp
  have f1: "fallback r1 = fallback r" "providers r1 = providers r"
    using selectProvider_frame[of rt r req] r1 by simp_all
  let ?r2 = "recordLatency r1 (getProviderName rt r1 P) elapsed"
  have f2: "fallback ?r2 = fallback r" "providers ?r2 = providers r"
    using recordLatency_frame[of r1 "getProviderName rt r1 P" elapsed] f1 by simp_all
  have c: "p_Complete P w req = (Inl e, w1) \<Longrightarrow>
            Complete rt elapsed r w req =
              (case fallback_provider r of
                 Some F \<Rightarrow> (fst (p_Complete F w1 req), ?r2, snd (p_Complete F w1 req))
               | None \<Rightarrow> (Inl e, ?r2, w1))"
    using assms f2
    by (simp add: Complete_def fallback_provider_def Let_def split: option.splits prod.splits)
  have s: "p_Stream P w req = (Inl e, w1) \<Longrightarrow>
            Stream rt r w req =
              (case fallback_provider r of
                 Some F \<Rightarrow> (fst (p_Stream F w1 req), r1, snd (p_Stream F w1 req))
               | None \<Rightarrow> (Inl e, r1, w1))"
    using assms f1
    by (simp add: Stream_def fallback_provider_def split: option.splits prod.splits)
  from c s show ?thesis by blast
qed

lemma retry_router_simps:
  "providers (retry_router fb) =
     [(''a'', failing_provider 1 [ex_model ''m1'' 1 1 []]),
      (''b'', working_provider 2 [ex_model ''m3'' 2 3 []])]"
  "providerList (retry_router fb) = [''a'', ''b'']"
  "strategy (retry_router fb) = StrategyRoundRobin"
  "healthCheck (retry_router fb) = False"
  "fallback (retry_router fb) = fb"
  "rrIndex (retry_router fb) = 0"
  "latencies (retry_router fb) = Map.empty"
  by (simp_all add: retry_router_def Register_def New_def)

lemma retry_router_select:
  "selectProvider ex_go_rt (retry_router fb) ex_request =
     (Inr (Some (failing_provider 1 [ex_model ''m1'' 1 1 []])), (retry_router fb)\<lparr>rrIndex := 1\<rparr>)"
  by (simp add: selectProvider_def model_match_def ex_request_def retry_router_simps
        getHealthyProviders_def roundRobinSelect_def go_rem_def index_def add64_def)

lemma ex_go_rt_range: "range_providers ex_go_rt = (\<lambda>ps. ps)"
  by (simp add: ex_go_rt_def)

theorem fallback_retry_once_witness:
  "selectProvider ex_go_rt (retry_router ''b'') ex_request =
     (Inr (Some (failing_provider 1 [ex_model ''m1'' 1 1 []])), (retry_router ''b'')\<lparr>rrIndex := 1\<rparr>) \<and>
   p_Complete (failing_provider 1 [ex_model ''m1'' 1 1 []]) 0 ex_request = (Inl (Err ''upstream''), 1) \<and>
   p_Stream (failing_provider 1 [ex_model ''m1'' 1 1 []]) 0 ex_request = (Inl (Err ''upstream''), 1) \<and>
   fst (Complete ex_go_rt 5 (retry_router ''b'') 0 ex_request) =
     Inr \<lparr> resp_ID = ''r'', resp_Model = [], resp_Content = ''ok'' \<rparr> \<and>
   snd (snd (Complete ex_go_rt 5 (retry_router ''b'') 0 ex_request)) = 2 \<and>
   fst (Stream ex_go_rt (retry_router ''b'') 0 ex_request) = Inr [''ok''] \<and>
   snd (snd (Stream ex_go_rt (retry_router ''b'') 0 ex_request)) = 2"
proof -
  have c: "p_Complete (failing_provider 1 [ex_model ''m1'' 1 1 []]) 0 ex_request
             = (Inl (Err ''upstream''), 1)"
    and s: "p_Stream (failing_provider 1 [ex_model ''m1'' 1 1 []]) 0 ex_request
             = (Inl (Err ''upstream''), 1)"
    by (simp_all add: failing_provider_def)
  have fb: "fallback_provider (retry_router ''b'') = Some (working_provider 2 [ex_model ''m3'' 2 3 []])"
    by (simp add: fallback_provider_def retry_router_simps)
  from fallback_retry_once[OF retry_router_select, where fb1 = "''b''" and w = 0
      and e = "Err ''upstream''" and ?w1.0 = 1 and elapsed = 5]
  show ?thesis
    using c s fb retry_router_select
    by (simp add: working_provider_def ex_request_def)
qed

text \<open>
  C5 as it was stated fails in both directions. With the selected provider itself as
  fallback, the failed call is repeated on it (the world counts two calls). With a fallback
  name that is set, differs from the selected provider and is not registered, no second call
  is made and the error comes back.
\<close>

theorem fallback_retry_counterexample:
  "fallback (retry_router ''a'') = ''a'' \<and>
   map_of (providers (retry_router ''a'')) ''a'' = Some (failing_provider 1 [ex_model ''m1'' 1 1 []]) \<and>
   fst (selectProvider ex_go_rt (retry_router ''a'') ex_request) =
     Inr (Some (failing_provider 1 [ex_model ''m1'' 1 1 []])) \<and>
   snd (snd (Complete ex_go_rt 5 (retry_router ''a'') 0 ex_request)) = 2 \<and>
   snd (snd (Stream ex_go_rt (retry_router ''a'') 0 ex_request)) = 2 \<and>
   fallback (retry_router ''zzz'') = ''zzz'' \<and>
   getProviderName ex_go_rt (retry_router ''zzz'') (failing_provider 1 [ex_model ''m1'' 1 1 []]) = ''a'' \<and>
   fst (Complete ex_go_rt 5 (retry_router ''zzz'') 0 ex_request) = Inl (Err ''upstream'') \<and>
   snd (snd (Complete ex_go_rt 5 (retry_router ''zzz'') 0 ex_request)) = 1 \<and>
   snd (snd (Stream ex_go_rt (retry_router ''zzz'') 0 ex_request)) = 1"
  using ex_go_rt_range
  by (simp add: Complete_def Stream_def retry_router_select retry_router_simps
        failing_provider_def recordLatency_def getProviderName_def)

section \<open>The cost axis of the smart router\<close>





section \<open>Ranking in the smart router\<close>







lemma tie_router_simps:
  "providers (base tie_router) =
     [(''p1'', working_provider 1 [ex_model ''m1'' 1 1 []]),
      (''p2'', working_provider 2 [ex_model ''m2'' 1 1 [''streaming'']])]"
  "providerList (base tie_router) = [''p1'', ''p2'']"
  "healthCheck (base tie_router) = False"
  "latencies (base tie_router) = Map.empty"
  "modelProfiles tie_router = Map.empty"
  "autoClassify tie_router = True"
  "classifier tie_router = Some (\<lambda>req. (''chat'', ''simple''))"
  by (simp_all add: tie_router_def Register_def New_def)

lemmas smart_eval =
  Route_def effective_context_def autoClassifyRequest_def scored_candidates_def
  getCandidates_def isProviderExcluded_def isModelExcluded_def meetsCapabilityRequirements_def
  calculateScore_def calculateTaskScore_def calculateComplexityScore_def
  calculateCostScore_def estimateCost_def calculateLatencyScore_def
  calculateCapabilityScore_def calculatePreferenceScore_def calculateTotalScore_def
  estimateLatency_def buildDecisionReason_def alternative_def higher_total_def
  NewRoutingContext_def latency_of_def HasFeature_def insertionSort_def
  PriorityBalanced_def PriorityQuality_def PriorityCost_def PriorityLatency_def
  FeatureStreaming_def FeatureVision_def FeatureFunctions_def FeatureJSON_def
  working_provider_def ex_model_def ex_request_def ex_smart_rt_def chosen_def Let_def



section \<open>Streaming through the smart router\<close>

text \<open>
  C6. Every decision of \<^verbatim>\<open>StreamWithRouting\<close> is claimed to select a model that advertises
  streaming. Called without a routing context, with automatic classification on, over the
  two providers above, it selects model \<open>m1\<close>, which does not advertise streaming: the
  requirement is only written into a context that the caller passed.
\<close>

theorem stream_routing_selects_non_streaming_model:
  "map_option (\<lambda>d. (d_ModelID d, HasFeature (d_ModelInfo d) FeatureStreaming))
     (fst (snd (StreamWithRouting (ex_smart_rt (\<lambda>ps. ps)) tie_router 0 ex_request None)))
   = Some (''m1'', False)"
  by (simp add: StreamWithRouting_def smart_eval tie_router_simps)

text \<open>With a routing context passed by the caller the selected model does advertise
  streaming.\<close>

lemma provider_candidates_meet:
  "c \<in> set (provider_candidates r ctx name provider ms) \<Longrightarrow>
   meetsCapabilityRequirements (modelInfo c) ctx"
  by (induction ms) (auto split: if_splits)

lemma candidates_loop_meet:
  "c \<in> set (candidates_loop r ctx ps) \<Longrightarrow> meetsCapabilityRequirements (modelInfo c) ctx"
  by (induction r ctx ps rule: candidates_loop.induct)
     (auto split: if_splits dest: provider_candidates_meet)

lemma Route_model_is_candidate:
  assumes "sorts_by_total rt" and "Route rt r req routingCtx = Inr d"
  shows "\<exists>c \<in> set (getCandidates rt r (effective_context r req routingCtx)).
           d_ModelInfo d = modelInfo c"
proof -
  define ctx where "ctx = effective_context r req routingCtx"
  define scored where "scored = scored_candidates rt r req ctx"
  have c: "set (sort_scored rt higher_total scored) = set scored"
    using assms(1) by (simp add: sorts_by_total_def)
  from assms(2) obtain best rest where
    br: "sort_scored rt higher_total scored = best # rest"
    and d: "d_ModelInfo d = modelInfo (sc_candidate best)"
    by (auto simp: Route_def Let_def ctx_def[symmetric] scored_def[symmetric]
          split: if_splits list.splits)
  from br c have "best \<in> set scored" by auto
  then have "sc_candidate best \<in> set (getCandidates rt r ctx)"
    by (auto simp: scored_def scored_candidates_def)
  with d show ?thesis unfolding ctx_def by blast
qed

lemma stream_routing_with_context_streams:
  assumes "sorts_by_total rt"
      and "fst (snd (StreamWithRouting rt r w req (Some c))) = Some d"
  shows "HasFeature (d_ModelInfo d) FeatureStreaming"
proof -
  define c' where "c' = c\<lparr> Constraints := (Constraints c)\<lparr>RequireStreaming := True\<rparr>,
                         RequiredCapabilities := RequiredCapabilities c @ [FeatureStreaming] \<rparr>"
  from assms(2) have r: "Route rt r req (Some c') = Inr d"
    by (auto simp: StreamWithRouting_def Let_def c'_def split: sum.splits prod.splits)
  from Route_model_is_candidate[OF assms(1) r] obtain x where
    x: "x \<in> set (getCandidates rt r (Some c'))" "d_ModelInfo d = modelInfo x"
    by (auto simp: effective_context_def)
  from x(1) have "meetsCapabilityRequirements (modelInfo x) (Some c')"
    by (auto simp: getCandidates_def dest: candidates_loop_meet)
  then show ?thesis
    using x(2) by (auto simp: meetsCapabilityRequirements_def c'_def split: if_splits)
qed

end
